theory Spec2Isabelle
  imports Main "HOL-Library.Word" "HOL-Library.Multiset" "HOL-Library.Char_ord"
    "HOL-Library.List_Lexorder" "HOL-Library.Product_Lexorder" "HOL-Library.AList"
begin

section \<open>Go values\<close>

text \<open>
  The lambdas run on 64-bit platforms, where Go's \<^verbatim>\<open>int\<close> is a 64-bit two's complement
  integer: \<open>+\<close> wraps around and \<open>sint\<close> reads the signed value.  A Go \<^verbatim>\<open>string\<close> is a
  sequence of bytes and \<^verbatim>\<open><\<close> on strings compares byte-wise, which is the lexicographic
  order on \<open>char list\<close>.
\<close>

type_synonym go_int = "64 word"

text \<open>
  A Go map that is only indexed is a partial function.  \<^verbatim>\<open>m[k]\<close> reads the zero value for a
  missing key, \<^verbatim>\<open>m[k] += n\<close> stores \<^verbatim>\<open>m[k] + n\<close>.
\<close>

definition index :: "(string \<rightharpoonup> go_int) \<Rightarrow> string \<Rightarrow> go_int" where
  "index m k = (case m k of None \<Rightarrow> 0 | Some v \<Rightarrow> v)"

definition addTo :: "(string \<rightharpoonup> go_int) \<Rightarrow> string \<Rightarrow> go_int \<Rightarrow> (string \<rightharpoonup> go_int)" where
  "addTo m k n = m(k \<mapsto> index m k + n)"

text \<open>
  A map that is also ranged over (\<^verbatim>\<open>dailyStats\<close>) is an association list with distinct
  keys; the order in which \<^verbatim>\<open>range\<close> visits the keys is not specified by Go and is a
  parameter of the model (see \<open>getSortedDates\<close>).
\<close>

type_synonym ranged_map = "(string \<times> go_int) list"

definition addToRanged :: "ranged_map \<Rightarrow> string \<Rightarrow> go_int \<Rightarrow> ranged_map" where
  "addToRanged m k n = AList.update k (index (map_of m) k + n) m"

text \<open>
  A slice that reaches the JSON encoder is \<open>'a list option\<close>: \<open>None\<close> is the nil slice
  (\<^verbatim>\<open>var s []T\<close>, encoded as \<^verbatim>\<open>null\<close>), \<open>Some xs\<close> a non-nil slice (encoded as an array).
  \<^verbatim>\<open>append\<close> to a nil slice allocates.
\<close>

definition go_append :: "'a list option \<Rightarrow> 'a \<Rightarrow> 'a list option" where
  "go_append s x = (case s of None \<Rightarrow> Some [x] | Some xs \<Rightarrow> Some (xs @ [x]))"

section \<open>The standard library: \<^verbatim>\<open>time.Parse\<close> with the layout \<^verbatim>\<open>02/01/2006\<close>\<close>

text \<open>
  Every date of the layout is a UTC midnight, so a \<^verbatim>\<open>time.Time\<close> is its year, month and
  day, and \<^verbatim>\<open>Before\<close> is the lexicographic order on the triple.  The zero \<^verbatim>\<open>Time{}\<close>, which
  \<^verbatim>\<open>time.Parse\<close> returns with an error, is 1 January of year 1.
\<close>

type_synonym Time = "nat \<times> nat \<times> nat"

definition Before :: "Time \<Rightarrow> Time \<Rightarrow> bool" where
  "Before t u = (t < u)"

definition zeroTime :: Time where
  "zeroTime = (1, 1, 1)"

definition isDigit :: "char \<Rightarrow> bool" where
  "isDigit c = (CHR ''0'' \<le> c \<and> c \<le> CHR ''9'')"

definition digit :: "char \<Rightarrow> nat" where
  "digit c = of_char c - 48"

text \<open>\<^verbatim>\<open>getnum(s, true)\<close>: exactly two digits (the layout elements \<^verbatim>\<open>02\<close> and \<^verbatim>\<open>01\<close>).\<close>

fun getnum :: "string \<Rightarrow> (nat \<times> string) option" where
  "getnum (a # b # rest) =
     (if isDigit a \<and> isDigit b then Some (digit a * 10 + digit b, rest) else None)"
| "getnum _ = None"

text \<open>\<^verbatim>\<open>skip(value, "/")\<close>: the literal separator.\<close>

fun skip :: "string \<Rightarrow> (string) option" where
  "skip (c # rest) = (if c = CHR ''/'' then Some rest else None)"
| "skip [] = None"

text \<open>The layout element \<^verbatim>\<open>2006\<close>: exactly four digits.\<close>

fun getyear :: "string \<Rightarrow> (nat \<times> string) option" where
  "getyear (a # b # c # d # rest) =
     (if isDigit a \<and> isDigit b \<and> isDigit c \<and> isDigit d
      then Some (digit a * 1000 + digit b * 100 + digit c * 10 + digit d, rest) else None)"
| "getyear _ = None"

definition isLeap :: "nat \<Rightarrow> bool" where
  "isLeap year = (year mod 4 = 0 \<and> (year mod 100 \<noteq> 0 \<or> year mod 400 = 0))"

definition daysIn :: "nat \<Rightarrow> nat \<Rightarrow> nat" where
  "daysIn m year =
     (if m = 2 then (if isLeap year then 29 else 28)
      else if m = 4 \<or> m = 6 \<or> m = 9 \<or> m = 11 then 30 else 31)"

text \<open>
  \<^verbatim>\<open>time.Parse("02/01/2006", value)\<close>: \<open>None\<close> is a non-nil error.  The month range is
  checked as the month is read, text after the year is an error, and the day is validated
  against the month and year at the end.
\<close>

definition parseDate :: "string \<Rightarrow> Time option" where
  "parseDate value =
     (case getnum value of None \<Rightarrow> None | Some (day, v1) \<Rightarrow>
      (case skip v1 of None \<Rightarrow> None | Some v2 \<Rightarrow>
       (case getnum v2 of None \<Rightarrow> None | Some (month, v3) \<Rightarrow>
        if month = 0 \<or> 12 < month then None
        else
         (case skip v3 of None \<Rightarrow> None | Some v4 \<Rightarrow>
          (case getyear v4 of None \<Rightarrow> None | Some (year, v5) \<Rightarrow>
           if v5 \<noteq> [] then None
           else if day < 1 \<or> daysIn month year < day then None
           else Some (year, month, day))))))"

section \<open>The standard library: \<^verbatim>\<open>sort.Slice\<close> and \<^verbatim>\<open>sort.SliceStable\<close>\<close>

text \<open>
  The sorting functions belong to Go's library, not to the repository, so the report
  generators take them as a parameter \<open>srt\<close>: the sorted slice as a function of the
  comparator and the slice (the library's algorithms are deterministic).  What the library
  promises is \<open>sorts srt\<close>: the result is a permutation of the slice (the algorithms only
  swap elements), and it is ordered whenever \<^verbatim>\<open>less\<close> is the transitive ordering the
  documentation of package \<^verbatim>\<open>sort\<close> asks for (\<open>transitiveOrdering\<close>): if \<^verbatim>\<open>Less(i, j)\<close> and
  \<^verbatim>\<open>Less(j, k)\<close> then \<^verbatim>\<open>Less(i, k)\<close>, and if neither \<^verbatim>\<open>Less(i, j)\<close> nor \<^verbatim>\<open>Less(j, k)\<close>
  then not \<^verbatim>\<open>Less(i, k)\<close>.  \<^verbatim>\<open>sort.Slice\<close> promises no more; in particular it may reorder
  elements that compare equal.
\<close>

definition transitiveOrdering :: "('a \<Rightarrow> 'a \<Rightarrow> bool) \<Rightarrow> 'a set \<Rightarrow> bool" where
  "transitiveOrdering lt A =
     ((\<forall>a\<in>A. \<not> lt a a) \<and>
      (\<forall>a\<in>A. \<forall>b\<in>A. \<forall>c\<in>A. lt a b \<and> lt b c \<longrightarrow> lt a c) \<and>
      (\<forall>a\<in>A. \<forall>b\<in>A. \<forall>c\<in>A. \<not> lt a b \<and> \<not> lt b c \<longrightarrow> \<not> lt a c))"

definition sorts :: "(('a \<Rightarrow> 'a \<Rightarrow> bool) \<Rightarrow> 'a list \<Rightarrow> 'a list) \<Rightarrow> bool" where
  "sorts srt =
     (\<forall>lt xs. mset (srt lt xs) = mset xs \<and>
        (transitiveOrdering lt (set xs) \<longrightarrow> sorted_wrt (\<lambda>a b. \<not> lt b a) (srt lt xs)))"

text \<open>
  \<^verbatim>\<open>insertionSortLessFunc\<close> is the algorithm both library functions run on a short slice
  (\<^verbatim>\<open>sort.SliceStable\<close> up to 20 elements; \<^verbatim>\<open>sort.Slice\<close> up to 12, and up to 6 in the
  releases that first make a pass over the elements six apart); the concrete inputs below
  have at most four elements:
  \<^verbatim>\<open>
  for i := a + 1; i < b; i++ {
      for j := i; j > a && less(data[j], data[j-1]); j-- { data.Swap(j, j-1) }
  }
  \<close>
  \<open>sift lt x placed\<close> is the inner loop: \<open>placed\<close> is the part already in place, read
  backwards from index \<open>i - 1\<close>, and \<open>x\<close> the element at index \<open>i\<close>.
\<close>

fun sift :: "('a \<Rightarrow> 'a \<Rightarrow> bool) \<Rightarrow> 'a \<Rightarrow> 'a list \<Rightarrow> 'a list" where
  "sift lt x [] = [x]"
| "sift lt x (y # ys) = (if lt x y then y # sift lt x ys else x # y # ys)"

definition insertionSort :: "('a \<Rightarrow> 'a \<Rightarrow> bool) \<Rightarrow> 'a list \<Rightarrow> 'a list" where
  "insertionSort lt xs = rev (foldl (\<lambda>placed x. sift lt x placed) [] xs)"

section \<open>The question report (\<^verbatim>\<open>generateStatistics\<close> with \<^verbatim>\<open>getSortedDates\<close>)\<close>

record Question =
  Name :: string
  Date :: string
  Difficulty :: string
  Tags :: "string list"

record DayStatistic =
  Date_Day :: string
  Count :: go_int

record Statistics =
  QuestionsCrackedPerDay :: "DayStatistic list option"
  QuestionsCrackedPerDifficulty :: "string \<rightharpoonup> go_int"
  QuestionsCrackedPerTag :: "string \<rightharpoonup> go_int"
  TotalQuestionsCracked :: go_int
  IncrementalQuestionsCrackedPerDay :: "DayStatistic list option"

text \<open>
  The comparator of \<^verbatim>\<open>getSortedDates\<close>: calendar order when both strings parse, byte-wise
  string order when either does not (the log line has no effect on the result).
\<close>

definition datesLess :: "string \<Rightarrow> string \<Rightarrow> bool" where
  "datesLess di dj =
     (case (parseDate di, parseDate dj) of
        (Some date1, Some date2) \<Rightarrow> Before date1 date2
      | _ \<Rightarrow> di < dj)"

text \<open>
  \<^verbatim>\<open>getSortedDates\<close>.  \<open>rangeKeys dateMap\<close> is the order in which \<^verbatim>\<open>for date := range dateMap\<close>
  visits the keys, which Go leaves unspecified: any arrangement of the keys
  (\<open>visitsKeys\<close>).  The local slice \<^verbatim>\<open>dates\<close> is only sorted and ranged over, so it is a list.
\<close>

definition visitsKeys :: "(ranged_map \<Rightarrow> string list) \<Rightarrow> bool" where
  "visitsKeys rangeKeys = (\<forall>m. mset (rangeKeys m) = mset (map fst m))"

definition getSortedDates ::
  "(ranged_map \<Rightarrow> string list) \<Rightarrow> ((string \<Rightarrow> string \<Rightarrow> bool) \<Rightarrow> string list \<Rightarrow> string list) \<Rightarrow>
   ranged_map \<Rightarrow> string list" where
  "getSortedDates rangeKeys sortSliceStable dateMap =
     (let dates = rangeKeys dateMap in sortSliceStable datesLess dates)"

text \<open>The body of the first loop, on the pair of \<^verbatim>\<open>dailyStats\<close> and \<^verbatim>\<open>stats\<close>.\<close>

definition countQuestion :: "ranged_map \<times> Statistics \<Rightarrow> Question \<Rightarrow> ranged_map \<times> Statistics" where
  "countQuestion st q =
     (case st of (dailyStats, stats) \<Rightarrow>
        (addToRanged dailyStats (Date q) 1,
         stats\<lparr>QuestionsCrackedPerDifficulty :=
                  addTo (QuestionsCrackedPerDifficulty stats) (Difficulty q) 1,
               QuestionsCrackedPerTag :=
                  foldl (\<lambda>perTag tag. addTo perTag tag 1) (QuestionsCrackedPerTag stats) (Tags q),
               TotalQuestionsCracked := TotalQuestionsCracked stats + 1\<rparr>))"

text \<open>
  The body of the second loop, on \<^verbatim>\<open>orderedQuestions\<close>, \<^verbatim>\<open>incrementalQuestions\<close> and
  \<^verbatim>\<open>runningTotal\<close>.  Both slices are declared with \<^verbatim>\<open>var\<close> and start nil.
\<close>

definition orderDay ::
  "ranged_map \<Rightarrow> DayStatistic list option \<times> DayStatistic list option \<times> go_int \<Rightarrow> string \<Rightarrow>
   DayStatistic list option \<times> DayStatistic list option \<times> go_int" where
  "orderDay dailyStats st date =
     (case st of (orderedQuestions, incrementalQuestions, runningTotal) \<Rightarrow>
        (let count = index (map_of dailyStats) date;
             runningTotal' = runningTotal + count
         in (go_append orderedQuestions \<lparr>Date_Day = date, Count = count\<rparr>,
             go_append incrementalQuestions \<lparr>Date_Day = date, Count = runningTotal'\<rparr>,
             runningTotal')))"

definition generateStatistics ::
  "(ranged_map \<Rightarrow> string list) \<Rightarrow> ((string \<Rightarrow> string \<Rightarrow> bool) \<Rightarrow> string list \<Rightarrow> string list) \<Rightarrow>
   Question list \<Rightarrow> Statistics" where
  "generateStatistics rangeKeys sortSliceStable questions =
     (let stats0 = \<lparr>QuestionsCrackedPerDay = None,
                    QuestionsCrackedPerDifficulty = Map.empty,
                    QuestionsCrackedPerTag = Map.empty,
                    TotalQuestionsCracked = 0,
                    IncrementalQuestionsCrackedPerDay = None\<rparr>;
          (dailyStats, stats) = foldl countQuestion ([], stats0) questions;
          sortedDates = getSortedDates rangeKeys sortSliceStable dailyStats;
          (orderedQuestions, incrementalQuestions, runningTotal) =
             foldl (orderDay dailyStats) (None, None, 0) sortedDates
      in stats\<lparr>QuestionsCrackedPerDay := orderedQuestions,
               IncrementalQuestionsCrackedPerDay := incrementalQuestions\<rparr>)"

text \<open>
  The earlier \<^verbatim>\<open>generateStatistics\<close> of the repository keeps the per-day counts as a map and
  has the same counting loop.
\<close>

record MapStatistics =
  QuestionsCrackedPerDay_Map :: "string \<rightharpoonup> go_int"
  QuestionsCrackedPerDifficulty_Map :: "string \<rightharpoonup> go_int"
  QuestionsCrackedPerTag_Map :: "string \<rightharpoonup> go_int"
  TotalQuestionsCracked_Map :: go_int

definition countQuestion_Map :: "MapStatistics \<Rightarrow> Question \<Rightarrow> MapStatistics" where
  "countQuestion_Map stats q =
     stats\<lparr>QuestionsCrackedPerDay_Map := addTo (QuestionsCrackedPerDay_Map stats) (Date q) 1,
           QuestionsCrackedPerDifficulty_Map :=
              addTo (QuestionsCrackedPerDifficulty_Map stats) (Difficulty q) 1,
           QuestionsCrackedPerTag_Map :=
              foldl (\<lambda>perTag tag. addTo perTag tag 1) (QuestionsCrackedPerTag_Map stats) (Tags q),
           TotalQuestionsCracked_Map := TotalQuestionsCracked_Map stats + 1\<rparr>"

definition generateStatistics_Map :: "Question list \<Rightarrow> MapStatistics" where
  "generateStatistics_Map questions =
     foldl countQuestion_Map
       \<lparr>QuestionsCrackedPerDay_Map = Map.empty,
        QuestionsCrackedPerDifficulty_Map = Map.empty,
        QuestionsCrackedPerTag_Map = Map.empty,
        TotalQuestionsCracked_Map = 0\<rparr> questions"

section \<open>The study report (\<^verbatim>\<open>generateStatistics\<close> with \<^verbatim>\<open>addToTotalMinutesPerDay\<close>)\<close>

text \<open>
  The structs of the study lambda have the field names of the question lambda; the fields
  of \<^verbatim>\<open>StudyRecord\<close> and of its \<^verbatim>\<open>DayStatistic\<close> carry a suffix here.
\<close>

record StudyRecord =
  Date_Record :: string
  Theme :: string
  Minutes :: go_int

record StudyDayStatistic =
  Date_StudyDay :: string
  Minutes_StudyDay :: go_int
  Themes :: "string \<rightharpoonup> go_int"

record StudyStatistics =
  TotalMinutesStudied :: go_int
  TotalMinutesPerDay :: "StudyDayStatistic list option"
  MinutesPerThemePerDay :: "string \<rightharpoonup> (string \<rightharpoonup> go_int)"

text \<open>
  The comparator given to \<^verbatim>\<open>sort.Slice\<close> drops the error of \<^verbatim>\<open>time.Parse\<close>
  (\<^verbatim>\<open>dateI, _ := time.Parse(...)\<close>): a string that does not parse counts as the zero time.
\<close>

definition timeOf :: "string \<Rightarrow> Time" where
  "timeOf value = (case parseDate value of None \<Rightarrow> zeroTime | Some t \<Rightarrow> t)"

definition byDate :: "StudyRecord \<Rightarrow> StudyRecord \<Rightarrow> bool" where
  "byDate ri rj = Before (timeOf (Date_Record ri)) (timeOf (Date_Record rj))"

text \<open>
  \<^verbatim>\<open>addToTotalMinutesPerDay\<close>.  \<open>addExisting\<close> is its loop, which stops at the first entry
  of the record's date (\<open>None\<close>: \<^verbatim>\<open>found\<close> stayed false).
\<close>

fun addExisting :: "StudyDayStatistic list \<Rightarrow> StudyRecord \<Rightarrow> StudyDayStatistic list option" where
  "addExisting [] record = None"
| "addExisting (d # ds) record =
     (if Date_StudyDay d = Date_Record record
      then Some (d\<lparr>Minutes_StudyDay := Minutes_StudyDay d + Minutes record,
                  Themes := addTo (Themes d) (Theme record) (Minutes record)\<rparr> # ds)
      else map_option ((#) d) (addExisting ds record))"

definition addToTotalMinutesPerDay ::
  "StudyDayStatistic list \<Rightarrow> StudyRecord \<Rightarrow> StudyDayStatistic list" where
  "addToTotalMinutesPerDay totalMinutesPerDay record =
     (case addExisting totalMinutesPerDay record of
        Some updated \<Rightarrow> updated
      | None \<Rightarrow>
          (let previousDayMinutes =
                 (if totalMinutesPerDay \<noteq> [] then Minutes_StudyDay (last totalMinutesPerDay)
                  else 0)
           in totalMinutesPerDay @
                [\<lparr>Date_StudyDay = Date_Record record,
                  Minutes_StudyDay = previousDayMinutes + Minutes record,
                  Themes = [Theme record \<mapsto> Minutes record]\<rparr>]))"

text \<open>
  The body of the loop over the sorted records, on \<^verbatim>\<open>themeMinutes\<close>,
  \<^verbatim>\<open>minutesPerThemePerDay\<close>, \<^verbatim>\<open>totalMinutesPerDay\<close> and \<^verbatim>\<open>totalMinutesStudied\<close>.
  \<open>themeDays\<close> is the inner map of the theme, made empty when the theme is new.
\<close>

definition addRecord ::
  "(string \<rightharpoonup> go_int) \<times> (string \<rightharpoonup> (string \<rightharpoonup> go_int)) \<times> StudyDayStatistic list \<times> go_int \<Rightarrow>
   StudyRecord \<Rightarrow>
   (string \<rightharpoonup> go_int) \<times> (string \<rightharpoonup> (string \<rightharpoonup> go_int)) \<times> StudyDayStatistic list \<times> go_int" where
  "addRecord st record =
     (case st of (themeMinutes, minutesPerThemePerDay, totalMinutesPerDay, totalMinutesStudied) \<Rightarrow>
        (let themeDays = (case minutesPerThemePerDay (Theme record) of
                            None \<Rightarrow> Map.empty | Some days \<Rightarrow> days);
             themeMinutes' = addTo themeMinutes (Theme record) (Minutes record)
         in (themeMinutes',
             minutesPerThemePerDay(Theme record \<mapsto>
                themeDays(Date_Record record \<mapsto> index themeMinutes' (Theme record))),
             addToTotalMinutesPerDay totalMinutesPerDay record,
             totalMinutesStudied + Minutes record)))"

text \<open>
  \<^verbatim>\<open>totalMinutesPerDay\<close> is made by the literal \<^verbatim>\<open>[]DayStatistic{}\<close>, so the slice of the
  report is never nil.
\<close>

definition generateStatistics_Study ::
  "((StudyRecord \<Rightarrow> StudyRecord \<Rightarrow> bool) \<Rightarrow> StudyRecord list \<Rightarrow> StudyRecord list) \<Rightarrow>
   StudyRecord list \<Rightarrow> StudyStatistics" where
  "generateStatistics_Study sortSlice records =
     (let sortedRecords = sortSlice byDate records;
          (themeMinutes, minutesPerThemePerDay, totalMinutesPerDay, totalMinutesStudied) =
             foldl addRecord (Map.empty, Map.empty, [], 0) sortedRecords
      in \<lparr>TotalMinutesStudied = totalMinutesStudied,
          TotalMinutesPerDay = Some totalMinutesPerDay,
          MinutesPerThemePerDay = minutesPerThemePerDay\<rparr>)"

section \<open>The study ingestion (\<^verbatim>\<open>putItemToDynamoDB\<close>, \<^verbatim>\<open>putMultipleItemsToDynamoDB\<close>)\<close>

text \<open>
  \<^verbatim>\<open>strconv.Atoi\<close> of Go's library, where \<^verbatim>\<open>int\<close> has 64 bits.  The callers only test the
  error against nil and put it into their message, so the functions return either the kind
  of the error or the number.

  \<^verbatim>\<open>ParseUint(s, 10, 0)\<close>: the loop over the bytes returns at the first byte that is no
  digit with a syntax error, and at the first digit with which the number leaves 64 bits
  with a range error, whatever follows.
\<close>

datatype NumError = ErrSyntax | ErrRange

definition maxUint64 :: nat where
  "maxUint64 = 18446744073709551615"

fun ParseUint_loop :: "nat \<Rightarrow> string \<Rightarrow> NumError + nat" where
  "ParseUint_loop n [] = Inr n"
| "ParseUint_loop n (c # s) =
     (if \<not> isDigit c then Inl ErrSyntax
      else if maxUint64 div 10 + 1 \<le> n then Inl ErrRange
      else if maxUint64 < n * 10 + digit c then Inl ErrRange
      else ParseUint_loop (n * 10 + digit c) s)"

definition ParseUint :: "string \<Rightarrow> NumError + nat" where
  "ParseUint s = (if s = [] then Inl ErrSyntax else ParseUint_loop 0 s)"

text \<open>
  \<^verbatim>\<open>ParseInt(s, 10, 0)\<close>: the sign is picked off, a syntax error of \<^verbatim>\<open>ParseUint\<close> is returned,
  and the number must fit the \<^verbatim>\<open>int\<close> (after a range error \<^verbatim>\<open>ParseUint\<close> has returned the
  greatest 64-bit number, which does not fit).
\<close>

definition ParseInt :: "string \<Rightarrow> NumError + go_int" where
  "ParseInt s0 =
     (case s0 of
        [] \<Rightarrow> Inl ErrSyntax
      | ch # rest \<Rightarrow>
          (let neg = (ch = CHR ''-'');
               s = (if ch = CHR ''+'' \<or> ch = CHR ''-'' then rest else s0)
           in case ParseUint s of
                Inl ErrSyntax \<Rightarrow> Inl ErrSyntax
              | Inl ErrRange \<Rightarrow> Inl ErrRange
              | Inr un \<Rightarrow>
                  if \<not> neg \<and> 2 ^ 63 \<le> un then Inl ErrRange
                  else if neg \<and> 2 ^ 63 < un then Inl ErrRange
                  else Inr (if neg then - of_nat un else of_nat un)))"

text \<open>
  \<^verbatim>\<open>Atoi\<close>: a string of 1 to 18 bytes takes the fast path, which cannot overflow; every
  other string goes to \<^verbatim>\<open>ParseInt\<close>.
\<close>

fun digits :: "string \<Rightarrow> nat \<Rightarrow> nat option" where
  "digits [] n = Some n"
| "digits (ch # s) n = (if isDigit ch then digits s (n * 10 + digit ch) else None)"

definition Atoi :: "string \<Rightarrow> NumError + go_int" where
  "Atoi s0 =
     (if 0 < length s0 \<and> length s0 < 19
      then (case s0 of
              [] \<Rightarrow> Inl ErrSyntax
            | ch # rest \<Rightarrow>
                if (ch = CHR ''-'' \<or> ch = CHR ''+'') \<and> rest = [] then Inl ErrSyntax
                else (case digits (if ch = CHR ''-'' \<or> ch = CHR ''+'' then rest else s0) 0 of
                        None \<Rightarrow> Inl ErrSyntax
                      | Some n \<Rightarrow> Inr (if ch = CHR ''-'' then - of_nat n else of_nat n)))
      else ParseInt s0)"

text \<open>
  The request of both lambdas (\<^verbatim>\<open>Request\<close>, \<^verbatim>\<open>Study\<close>) and the item they store; the number
  attribute \<^verbatim>\<open>minutes_of_study\<close> is written with \<^verbatim>\<open>strconv.Itoa\<close> and kept as the integer
  here.
\<close>

record Study =
  StudyTheme :: string
  StudyDate :: string
  StudyMinutes :: string

record Item =
  study_theme :: string
  study_date :: string
  minutes_of_study :: go_int

datatype put_error = InvalidMinutes NumError | PutItemFailed | BatchWriteFailed

text \<open>
  The table is the state \<open>'db\<close> of the storage service, and the calls
  \<^verbatim>\<open>dynamoClient.PutItem\<close> and \<^verbatim>\<open>dynamoClient.BatchWriteItem\<close> are parameters: they
  return whether the error is nil and the table afterwards.  The functions return their
  error (\<open>None\<close> is nil) and the table.
\<close>

definition putItemToDynamoDB ::
  "(Item \<Rightarrow> 'db \<Rightarrow> bool \<times> 'db) \<Rightarrow> Study \<Rightarrow> 'db \<Rightarrow> put_error option \<times> 'db" where
  "putItemToDynamoDB PutItem request db =
     (case Atoi (StudyMinutes request) of
        Inl err \<Rightarrow> (Some (InvalidMinutes err), db)
      | Inr minutes \<Rightarrow>
          (case PutItem \<lparr>study_theme = StudyTheme request, study_date = StudyDate request,
                         minutes_of_study = minutes\<rparr> db of
             (ok, db') \<Rightarrow> (if ok then None else Some PutItemFailed, db')))"

text \<open>The first loop of \<^verbatim>\<open>putMultipleItemsToDynamoDB\<close>: it returns at the first bad study.\<close>

fun writeRequests :: "Study list \<Rightarrow> NumError + Item list" where
  "writeRequests [] = Inr []"
| "writeRequests (study # studies) =
     (case Atoi (StudyMinutes study) of
        Inl err \<Rightarrow> Inl err
      | Inr minutes \<Rightarrow>
          (case writeRequests studies of
             Inl err \<Rightarrow> Inl err
           | Inr items \<Rightarrow>
               Inr (\<lparr>study_theme = StudyTheme study, study_date = StudyDate study,
                      minutes_of_study = minutes\<rparr> # items)))"

text \<open>The second loop: batches of at most 25 items, until one fails.\<close>

function batchWrite ::
  "(Item list \<Rightarrow> 'db \<Rightarrow> bool \<times> 'db) \<Rightarrow> Item list \<Rightarrow> 'db \<Rightarrow> put_error option \<times> 'db" where
  "batchWrite BatchWriteItem items db =
     (if items = [] then (None, db)
      else (case BatchWriteItem (take 25 items) db of
              (ok, db') \<Rightarrow>
                if ok then batchWrite BatchWriteItem (drop 25 items) db'
                else (Some BatchWriteFailed, db')))"
  by pat_completeness auto

termination
  by (relation "measure (\<lambda>(BatchWriteItem, items, db). length items)") auto

definition putMultipleItemsToDynamoDB ::
  "(Item list \<Rightarrow> 'db \<Rightarrow> bool \<times> 'db) \<Rightarrow> Study list \<Rightarrow> 'db \<Rightarrow> put_error option \<times> 'db" where
  "putMultipleItemsToDynamoDB BatchWriteItem studies db =
     (case writeRequests studies of
        Inl err \<Rightarrow> (Some (InvalidMinutes err), db)
      | Inr items \<Rightarrow> batchWrite BatchWriteItem items db)"

section \<open>Auxiliary definitions for the proofs\<close>

text \<open>The elements a \<^verbatim>\<open>range\<close> over a slice visits: none for the nil slice.\<close>

definition elems :: "'a list option \<Rightarrow> 'a list" where
  "elems s = (case s of None \<Rightarrow> [] | Some xs \<Rightarrow> xs)"

text \<open>The initial \<^verbatim>\<open>stats\<close> of \<open>generateStatistics\<close>.\<close>

definition stats0 :: Statistics where
  "stats0 = \<lparr>QuestionsCrackedPerDay = None,
                    QuestionsCrackedPerDifficulty = Map.empty,
                    QuestionsCrackedPerTag = Map.empty,
                    TotalQuestionsCracked = 0,
                    IncrementalQuestionsCrackedPerDay = None\<rparr>"

text \<open>\<^verbatim>\<open>dailyStats\<close> after the first loop of \<open>generateStatistics\<close>.\<close>

definition dailyStatsOf :: "Question list \<Rightarrow> ranged_map" where
  "dailyStatsOf qs = foldl (\<lambda>m q. addToRanged m (Date q) 1) [] qs"

text \<open>
  What the second loop of \<open>generateStatistics\<close> appends to \<^verbatim>\<open>incrementalQuestions\<close>
  (\<open>running\<close>, from the running total \<open>r\<close>) and to \<^verbatim>\<open>orderedQuestions\<close> (\<open>perDay\<close>).
\<close>

fun running :: "ranged_map \<Rightarrow> go_int \<Rightarrow> string list \<Rightarrow> DayStatistic list" where
  "running ds r [] = []"
| "running ds r (d # dates) =
     \<lparr>Date_Day = d, Count = r + index (map_of ds) d\<rparr> # running ds (r + index (map_of ds) d) dates"

definition perDay :: "ranged_map \<Rightarrow> string list \<Rightarrow> DayStatistic list" where
  "perDay ds dates = map (\<lambda>d. \<lparr>Date_Day = d, Count = index (map_of ds) d\<rparr>) dates"

text \<open>
  For the proofs about the study report: the records dated \<open>d\<close> or earlier, and what the
  series of days satisfies after the sorted records \<open>p\<close> have been added.
\<close>

definition upTo :: "StudyRecord list \<Rightarrow> string \<Rightarrow> StudyRecord list" where
  "upTo rs d = filter (\<lambda>r. timeOf (Date_Record r) \<le> timeOf d) rs"

definition daysInv :: "StudyRecord list \<Rightarrow> StudyDayStatistic list \<Rightarrow> bool" where
  "daysInv p D =
     (Date_StudyDay ` set D = Date_Record ` set p \<and>
      sorted_wrt (\<lambda>a b. timeOf a < timeOf b) (map Date_StudyDay D) \<and>
      (p = [] \<or> (D \<noteq> [] \<and> (\<forall>a\<in>set p. timeOf (Date_Record a) \<le> timeOf (Date_StudyDay (last D))))) \<and>
      (\<forall>e\<in>set D. Minutes_StudyDay e = sum_list (map Minutes (upTo p (Date_StudyDay e)))))"

text \<open>
  The per-theme series as the specification describes it: for a theme, the records of the
  theme dated \<open>d\<close> or earlier (\<open>themeUpTo\<close>); an entry on each date the theme has a record on,
  holding the sum of their minutes (\<open>themeSeries\<close>); and a series for each theme that has
  a record (\<open>perTheme\<close>).
\<close>

definition themeUpTo :: "StudyRecord list \<Rightarrow> string \<Rightarrow> string \<Rightarrow> StudyRecord list" where
  "themeUpTo rs th d = filter (\<lambda>r. Theme r = th \<and> timeOf (Date_Record r) \<le> timeOf d) rs"

definition themeSeries :: "StudyRecord list \<Rightarrow> string \<Rightarrow> (string \<rightharpoonup> go_int)" where
  "themeSeries rs th =
     (\<lambda>d. if \<exists>r\<in>set rs. Theme r = th \<and> Date_Record r = d
          then Some (sum_list (map Minutes (themeUpTo rs th d))) else None)"

definition perTheme :: "StudyRecord list \<Rightarrow> (string \<rightharpoonup> (string \<rightharpoonup> go_int))" where
  "perTheme rs =
     (\<lambda>th. if \<exists>r\<in>set rs. Theme r = th then Some (themeSeries rs th) else None)"

text \<open>
  What the series of days satisfies after any records \<open>p\<close>, sorted or not: one entry for
  each date string, whose themes hold the minutes of the records of that date.
\<close>

definition bucketsInv :: "StudyRecord list \<Rightarrow> StudyDayStatistic list \<Rightarrow> bool" where
  "bucketsInv p D =
     (distinct (map Date_StudyDay D) \<and>
      Date_StudyDay ` set D = Date_Record ` set p \<and>
      (\<forall>e\<in>set D. \<forall>th. index (Themes e) th =
         sum_list (map Minutes
           (filter (\<lambda>r. Date_Record r = Date_StudyDay e \<and> Theme r = th) p))))"

text \<open>
  The strings \<^verbatim>\<open>strconv.Atoi\<close> is documented to accept, decimal integers with an optional
  sign (\<open>isNumber\<close>), and the integer such a string denotes (\<open>numberOf\<close>).
\<close>

definition decimal :: "string \<Rightarrow> nat" where
  "decimal s = foldl (\<lambda>n c. n * 10 + digit c) 0 s"

definition isNumber :: "string \<Rightarrow> bool" where
  "isNumber s0 =
     (case s0 of
        [] \<Rightarrow> False
      | ch # rest \<Rightarrow>
          (let body = (if ch = CHR ''-'' \<or> ch = CHR ''+'' then rest else s0)
           in body \<noteq> [] \<and> list_all isDigit body))"

definition numberOf :: "string \<Rightarrow> int" where
  "numberOf s0 =
     (case s0 of
        [] \<Rightarrow> 0
      | ch # rest \<Rightarrow>
          if ch = CHR ''-'' then - int (decimal rest)
          else if ch = CHR ''+'' then int (decimal rest)
          else int (decimal s0))"

section \<open>Concrete inputs\<close>

text \<open>Questions: three with dates that parse; a date that does not parse among two that do, in two
  arrangements; and none that parses.\<close>

definition threeQuestions :: "Question list" where
  "threeQuestions =
     [\<lparr>Name = ''two-sum'', Date = ''01/02/2024'', Difficulty = ''easy'', Tags = [''array'', ''dp'']\<rparr>,
      \<lparr>Name = ''lis'', Date = ''15/01/2024'', Difficulty = ''medium'', Tags = [''dp'']\<rparr>,
      \<lparr>Name = ''3sum'', Date = ''01/02/2024'', Difficulty = ''medium'', Tags = []\<rparr>]"

definition mixedQuestions :: "Question list" where
  "mixedQuestions =
     [\<lparr>Name = ''a'', Date = ''01/02/2024'', Difficulty = ''easy'', Tags = []\<rparr>,
      \<lparr>Name = ''b'', Date = ''10'', Difficulty = ''easy'', Tags = []\<rparr>,
      \<lparr>Name = ''c'', Date = ''15/01/2024'', Difficulty = ''easy'', Tags = []\<rparr>]"

definition fourQuestions :: "Question list" where
  "fourQuestions =
     [\<lparr>Name = ''a'', Date = ''11'', Difficulty = ''easy'', Tags = []\<rparr>,
      \<lparr>Name = ''b'', Date = ''15/01/2024'', Difficulty = ''easy'', Tags = []\<rparr>,
      \<lparr>Name = ''c'', Date = ''01/02/2024'', Difficulty = ''easy'', Tags = []\<rparr>,
      \<lparr>Name = ''d'', Date = ''10'', Difficulty = ''easy'', Tags = []\<rparr>]"

definition undatedQuestions :: "Question list" where
  "undatedQuestions =
     [\<lparr>Name = ''a'', Date = ''not-a-date'', Difficulty = ''easy'', Tags = []\<rparr>,
      \<lparr>Name = ''b'', Date = ''2024-01-15'', Difficulty = ''easy'', Tags = []\<rparr>,
      \<lparr>Name = ''c'', Date = ''not-a-date'', Difficulty = ''hard'', Tags = []\<rparr>]"

text \<open>Study records: the scenario of the specification; two days of \<open>2^62\<close> minutes each; and
  dates that do not parse.\<close>

definition scenario :: "StudyRecord list" where
  "scenario =
     [\<lparr>Date_Record = ''02/01/2024'', Theme = ''math'', Minutes = 30\<rparr>,
      \<lparr>Date_Record = ''02/01/2024'', Theme = ''algo'', Minutes = 20\<rparr>,
      \<lparr>Date_Record = ''03/01/2024'', Theme = ''math'', Minutes = 10\<rparr>]"

definition twoLongDays :: "StudyRecord list" where
  "twoLongDays =
     [\<lparr>Date_Record = ''01/01/2024'', Theme = ''math'', Minutes = 4611686018427387904\<rparr>,
      \<lparr>Date_Record = ''02/01/2024'', Theme = ''math'', Minutes = 4611686018427387904\<rparr>]"

definition unparsedDays :: "StudyRecord list" where
  "unparsedDays =
     [\<lparr>Date_Record = ''x'', Theme = ''t'', Minutes = 1\<rparr>,
      \<lparr>Date_Record = ''y'', Theme = ''t'', Minutes = 2\<rparr>,
      \<lparr>Date_Record = ''x'', Theme = ''t'', Minutes = 4\<rparr>]"

definition undatedStudies :: "StudyRecord list" where
  "undatedStudies =
     [\<lparr>Date_Record = ''b'', Theme = ''math'', Minutes = 30\<rparr>,
      \<lparr>Date_Record = ''a'', Theme = ''math'', Minutes = 20\<rparr>]"

text \<open>Ingestion: a storage that appends what it is given and reports no error; a batch whose
  second study has bad minutes; and a study with negative minutes.\<close>

definition appendItem :: "Item \<Rightarrow> Item list \<Rightarrow> bool \<times> Item list" where
  "appendItem item db = (True, db @ [item])"

definition appendItems :: "Item list \<Rightarrow> Item list \<Rightarrow> bool \<times> Item list" where
  "appendItems items db = (True, db @ items)"

definition twoStudies :: "Study list" where
  "twoStudies =
     [\<lparr>StudyTheme = ''math'', StudyDate = ''02/01/2024'', StudyMinutes = ''30''\<rparr>,
      \<lparr>StudyTheme = ''algo'', StudyDate = ''02/01/2024'', StudyMinutes = ''thirty''\<rparr>]"

definition negativeStudy :: Study where
  "negativeStudy = \<lparr>StudyTheme = ''math'', StudyDate = ''02/01/2024'', StudyMinutes = ''-5''\<rparr>"

section \<open>The library sort on short slices meets the contract\<close>

lemma mset_sift: "mset (sift lt x ys) = add_mset x (mset ys)"
  by (induction ys) auto

lemma set_sift: "set (sift lt x ys) = insert x (set ys)"
  by (induction ys) auto

lemma sorted_sift:
  assumes "transitiveOrdering lt A" "x \<in> A" "set ys \<subseteq> A" "sorted_wrt (\<lambda>a b. \<not> lt a b) ys"
  shows "sorted_wrt (\<lambda>a b. \<not> lt a b) (sift lt x ys)"
  using assms(3,4)
proof (induction ys)
  case Nil
  then show ?case by simp
next
  case (Cons y ys)
  have irr: "\<And>a. a \<in> A \<Longrightarrow> \<not> lt a a"
    and tr: "\<And>a b c. a \<in> A \<Longrightarrow> b \<in> A \<Longrightarrow> c \<in> A \<Longrightarrow> lt a b \<Longrightarrow> lt b c \<Longrightarrow> lt a c"
    and ntr: "\<And>a b c. a \<in> A \<Longrightarrow> b \<in> A \<Longrightarrow> c \<in> A \<Longrightarrow> \<not> lt a b \<Longrightarrow> \<not> lt b c \<Longrightarrow> \<not> lt a c"
    using assms(1) unfolding transitiveOrdering_def by blast+
  from Cons.prems have yA: "y \<in> A" and ysA: "set ys \<subseteq> A"
    and head: "\<forall>z\<in>set ys. \<not> lt y z" and tail: "sorted_wrt (\<lambda>a b. \<not> lt a b) ys"
    by auto
  show ?case
  proof (cases "lt x y")
    case True
    have "\<not> lt y x" using True tr[OF yA assms(2) yA] irr[OF yA] by blast
    with True head Cons.IH[OF ysA tail] show ?thesis by (simp add: set_sift)
  next
    case False
    have "\<forall>z\<in>set ys. \<not> lt x z"
      using False head ntr[OF assms(2) yA] ysA by blast
    with False Cons.prems show ?thesis by simp
  qed
qed

lemma mset_foldl_sift: "mset (foldl (\<lambda>placed x. sift lt x placed) acc xs) = mset xs + mset acc"
  by (induction xs arbitrary: acc) (simp_all add: mset_sift)

lemma sorted_foldl_sift:
  assumes "transitiveOrdering lt A"
  shows "set xs \<subseteq> A \<Longrightarrow> set acc \<subseteq> A \<Longrightarrow> sorted_wrt (\<lambda>a b. \<not> lt a b) acc \<Longrightarrow>
    sorted_wrt (\<lambda>a b. \<not> lt a b) (foldl (\<lambda>placed x. sift lt x placed) acc xs)"
proof (induction xs arbitrary: acc)
  case Nil
  then show ?case by simp
next
  case (Cons x xs)
  have "sorted_wrt (\<lambda>a b. \<not> lt a b) (sift lt x acc)"
    using sorted_sift[OF assms, of x acc] Cons.prems by simp
  moreover have "set (sift lt x acc) \<subseteq> A" using Cons.prems by (simp add: set_sift)
  ultimately show ?case using Cons.IH[of "sift lt x acc"] Cons.prems by simp
qed

lemma mset_insertionSort: "mset (insertionSort lt xs) = mset xs"
  by (simp add: insertionSort_def mset_foldl_sift)

lemma sorted_insertionSort:
  assumes "transitiveOrdering lt (set xs)"
  shows "sorted_wrt (\<lambda>a b. \<not> lt b a) (insertionSort lt xs)"
proof -
  have "sorted_wrt (\<lambda>a b. \<not> lt a b) (foldl (\<lambda>placed x. sift lt x placed) [] xs)"
    using sorted_foldl_sift[OF assms, of xs "[]"] by simp
  then show ?thesis by (simp add: insertionSort_def sorted_wrt_rev)
qed

lemma sorts_insertionSort: "sorts insertionSort"
  unfolding sorts_def using mset_insertionSort sorted_insertionSort by blast

section \<open>The counting loop of the question report\<close>

lemma index_addTo: "index (addTo m k n) k' = (if k' = k then index m k + n else index m k')"
  by (simp add: index_def addTo_def)

lemma dom_addTo: "dom (addTo m k n) = insert k (dom m)"
  by (simp add: addTo_def)

lemma index_foldl_addTo:
  "index (foldl (\<lambda>perTag tag. addTo perTag tag 1) m tags) t = index m t + of_nat (count_list tags t)"
  by (induction tags arbitrary: m) (simp_all add: index_addTo)

lemma dom_foldl_addTo:
  "dom (foldl (\<lambda>perTag tag. addTo perTag tag n) m tags) = dom m \<union> set tags"
  by (induction tags arbitrary: m) (auto simp: dom_addTo)

lemma fst_foldl_countQuestion:
  "fst (foldl countQuestion (ds, st) qs) = foldl (\<lambda>m q. addToRanged m (Date q) 1) ds qs"
  by (induction qs arbitrary: ds st) (simp_all add: countQuestion_def)

lemma total_foldl_countQuestion:
  "TotalQuestionsCracked (snd (foldl countQuestion (ds, st) qs)) =
     TotalQuestionsCracked st + of_nat (length qs)"
  by (induction qs arbitrary: ds st) (simp_all add: countQuestion_def)

lemma perTag_foldl_countQuestion:
  "index (QuestionsCrackedPerTag (snd (foldl countQuestion (ds, st) qs))) t =
     index (QuestionsCrackedPerTag st) t + of_nat (\<Sum>q\<leftarrow>qs. count_list (Tags q) t)"
  by (induction qs arbitrary: ds st) (simp_all add: countQuestion_def index_foldl_addTo)

lemma perDifficulty_foldl_countQuestion:
  "index (QuestionsCrackedPerDifficulty (snd (foldl countQuestion (ds, st) qs))) t =
     index (QuestionsCrackedPerDifficulty st) t + of_nat (count_list (map Difficulty qs) t)"
  by (induction qs arbitrary: ds st) (simp_all add: countQuestion_def index_addTo)

lemma index_addToRanged:
  "index (map_of (addToRanged m k n)) k' =
     (if k' = k then index (map_of m) k + n else index (map_of m) k')"
  by (simp add: addToRanged_def update_conv' index_def)

lemma keys_addToRanged: "fst ` set (addToRanged m k n) = insert k (fst ` set m)"
  by (simp add: addToRanged_def dom_update)

lemma distinct_addToRanged: "distinct (map fst m) \<Longrightarrow> distinct (map fst (addToRanged m k n))"
  by (simp add: addToRanged_def distinct_update)

lemma index_foldl_addToRanged:
  "index (map_of (foldl (\<lambda>m q. addToRanged m (Date q) 1) ds qs)) d =
     index (map_of ds) d + of_nat (count_list (map Date qs) d)"
  by (induction qs arbitrary: ds) (simp_all add: index_addToRanged)

lemma keys_foldl_addToRanged:
  "fst ` set (foldl (\<lambda>m q. addToRanged m (Date q) 1) ds qs) = fst ` set ds \<union> Date ` set qs"
  by (induction qs arbitrary: ds) (auto simp: keys_addToRanged)

lemma distinct_foldl_addToRanged:
  "distinct (map fst ds) \<Longrightarrow> distinct (map fst (foldl (\<lambda>m q. addToRanged m (Date q) 1) ds qs))"
  by (induction qs arbitrary: ds) (simp_all add: distinct_addToRanged)

lemma index_dailyStatsOf:
  "index (map_of (dailyStatsOf qs)) d = of_nat (count_list (map Date qs) d)"
proof -
  have "index (map_of []) d = 0" by (simp add: index_def)
  then show ?thesis by (simp add: dailyStatsOf_def index_foldl_addToRanged)
qed

lemma keys_dailyStatsOf: "set (map fst (dailyStatsOf qs)) = Date ` set qs"
  using keys_foldl_addToRanged[of "[]" qs] by (simp add: dailyStatsOf_def)

lemma distinct_dailyStatsOf: "distinct (map fst (dailyStatsOf qs))"
  by (simp add: dailyStatsOf_def distinct_foldl_addToRanged)

lemma elems_foldl_go_append: "elems (foldl go_append s xs) = elems s @ xs"
  by (induction xs arbitrary: s) (auto simp: go_append_def elems_def split: option.splits)

lemma foldl_go_append_None: "(foldl go_append s xs = None) = (s = None \<and> xs = [])"
  by (induction xs arbitrary: s) (auto simp: go_append_def split: option.splits)

lemma foldl_orderDay:
  "foldl (orderDay ds) (ord, inc, r) dates =
     (foldl go_append ord (perDay ds dates), foldl go_append inc (running ds r dates),
      r + sum_list (map (index (map_of ds)) dates))"
  by (induction dates arbitrary: ord inc r) (simp_all add: orderDay_def perDay_def Let_def add.assoc)

lemma generateStatistics_eq:
  "generateStatistics rk srt qs =
     (snd (foldl countQuestion ([], stats0) qs))
       \<lparr>QuestionsCrackedPerDay :=
          foldl go_append None (perDay (dailyStatsOf qs) (srt datesLess (rk (dailyStatsOf qs)))),
        IncrementalQuestionsCrackedPerDay :=
          foldl go_append None (running (dailyStatsOf qs) 0 (srt datesLess (rk (dailyStatsOf qs))))\<rparr>"
proof -
  obtain ds st where f: "foldl countQuestion ([], stats0) qs = (ds, st)" by fastforce
  have ds: "ds = dailyStatsOf qs"
    using fst_foldl_countQuestion[of "[]" stats0 qs] f by (simp add: dailyStatsOf_def)
  show ?thesis
    unfolding generateStatistics_def getSortedDates_def Let_def stats0_def[symmetric] f
    by (simp add: foldl_orderDay ds)
qed

lemma total_generateStatistics:
  "TotalQuestionsCracked (generateStatistics rk srt qs) = of_nat (length qs)"
  by (simp add: generateStatistics_eq total_foldl_countQuestion stats0_def)

lemma perDay_generateStatistics:
  "elems (QuestionsCrackedPerDay (generateStatistics rk srt qs)) =
     perDay (dailyStatsOf qs) (srt datesLess (rk (dailyStatsOf qs)))"
  by (simp add: generateStatistics_eq elems_foldl_go_append) (simp add: elems_def)

lemma incremental_generateStatistics:
  "elems (IncrementalQuestionsCrackedPerDay (generateStatistics rk srt qs)) =
     running (dailyStatsOf qs) 0 (srt datesLess (rk (dailyStatsOf qs)))"
  by (simp add: generateStatistics_eq elems_foldl_go_append) (simp add: elems_def)

lemma perTag_generateStatistics:
  "index (QuestionsCrackedPerTag (generateStatistics rk srt qs)) t =
     of_nat (\<Sum>q\<leftarrow>qs. count_list (Tags q) t)"
  by (simp add: generateStatistics_eq perTag_foldl_countQuestion) (simp add: stats0_def index_def)

text \<open>The sorted dates are the distinct dates of the questions.\<close>

lemma sortedDates_mset:
  assumes "visitsKeys rk" "sorts srt"
  shows "mset (srt datesLess (rk (dailyStatsOf qs))) = mset (map fst (dailyStatsOf qs))"
  using assms unfolding visitsKeys_def sorts_def by simp

lemma sortedDates_distinct:
  assumes "visitsKeys rk" "sorts srt"
  shows "distinct (srt datesLess (rk (dailyStatsOf qs)))"
    and "set (srt datesLess (rk (dailyStatsOf qs))) = Date ` set qs"
proof -
  let ?out = "srt datesLess (rk (dailyStatsOf qs))"
  have m: "mset ?out = mset (map fst (dailyStatsOf qs))" by (rule sortedDates_mset[OF assms])
  show "distinct ?out"
    using distinct_dailyStatsOf[of qs] m by (metis mset_eq_imp_distinct_iff)
  show "set ?out = Date ` set qs"
    using keys_dailyStatsOf[of qs] m by (metis mset_eq_setD)
qed

lemma sint_of_nat_go_int:
  assumes "k < 2 ^ 63"
  shows "sint (of_nat k :: go_int) = int k"
proof -
  have "int k < 2 ^ 63" using assms by (metis of_nat_less_numeral_power_cancel_iff)
  then show ?thesis
    by (simp add: signed_of_nat signed_take_bit_int_eq_self)
qed

lemma running_mono:
  fixes n :: "string \<Rightarrow> nat"
  assumes c: "\<And>d. index (map_of ds) d = of_nat (n d)"
  shows "r + sum_list (map n dates) < 2 ^ 63 \<Longrightarrow>
     sorted (map (\<lambda>e. sint (Count e)) (running ds (of_nat r) dates)) \<and>
     (\<forall>e\<in>set (running ds (of_nat r) dates). int r \<le> sint (Count e))"
proof (induction dates arbitrary: r)
  case Nil
  then show ?case by simp
next
  case (Cons d dates)
  let ?r' = "r + n d"
  have b: "?r' + sum_list (map n dates) < 2 ^ 63" using Cons.prems by (simp add: add.assoc)
  then have "?r' < 2 ^ 63" by simp
  then have h: "sint (of_nat ?r' :: go_int) = int ?r'" by (rule sint_of_nat_go_int)
  have step: "(of_nat r :: go_int) + index (map_of ds) d = of_nat ?r'" by (simp add: c)
  from Cons.IH[OF b] have s: "sorted (map (\<lambda>e. sint (Count e)) (running ds (of_nat ?r') dates))"
    and l: "\<forall>e\<in>set (running ds (of_nat ?r') dates). int ?r' \<le> sint (Count e)" by auto
  show ?case using s l h by (auto simp: step)
qed

lemma running_Nil_iff: "(running ds r dates = []) = (dates = [])"
  by (cases dates) simp_all

lemma running_last:
  "dates \<noteq> [] \<Longrightarrow>
     Count (last (running ds r dates)) = r + sum_list (map (index (map_of ds)) dates)"
proof (induction dates arbitrary: r)
  case Nil
  then show ?case by simp
next
  case (Cons d dates)
  show ?case
  proof (cases "dates = []")
    case True
    then show ?thesis by simp
  next
    case False
    then show ?thesis
      using Cons.IH[OF False, of "r + index (map_of ds) d"]
      by (simp add: running_Nil_iff add.assoc)
  qed
qed

lemma running_nth:
  "i < length dates \<Longrightarrow>
     Date_Day (running ds r dates ! i) = dates ! i \<and>
     Count (running ds r dates ! i) = r + sum_list (map (index (map_of ds)) (take (Suc i) dates))"
proof (induction dates arbitrary: r i)
  case Nil
  then show ?case by simp
next
  case (Cons d dates)
  then show ?case by (cases i) (simp_all add: add.assoc)
qed

lemma length_running: "length (running ds r dates) = length dates"
  by (induction dates arbitrary: r) simp_all

lemma sum_counts_distinct:
  assumes "distinct dates" "set dates = set xs"
  shows "sum_list (map (count_list xs) dates) = length xs"
proof -
  have "sum_list (map (count_list xs) dates) = sum (count_list xs) (set dates)"
    using assms(1) by (rule sum_list_distinct_conv_sum_set)
  also have "\<dots> = length xs" using assms(2) by (simp add: sum_count_set)
  finally show ?thesis .
qed

lemma of_nat_sum_list_map:
  "sum_list (map (\<lambda>d. of_nat (f d)) xs) = (of_nat (sum_list (map f xs)) :: 'a :: semiring_1)"
  by (induction xs) simp_all

lemma visitsKeys_map_fst: "visitsKeys (map fst)"
  by (simp add: visitsKeys_def)

section \<open>The loop of the study report\<close>

lemma total_foldl_addRecord:
  "snd (snd (snd (foldl addRecord (tm, mp, days, tot) rs))) = tot + sum_list (map Minutes rs)"
  by (induction rs arbitrary: tm mp days tot) (simp_all add: addRecord_def Let_def add.assoc)

lemma days_foldl_addRecord:
  "fst (snd (snd (foldl addRecord (tm, mp, days, tot) rs))) =
     foldl addToTotalMinutesPerDay days rs"
  by (induction rs arbitrary: tm mp days tot) (simp_all add: addRecord_def Let_def)

lemma generateStatistics_Study_total:
  "TotalMinutesStudied (generateStatistics_Study srt rs) = sum_list (map Minutes (srt byDate rs))"
  using total_foldl_addRecord[of Map.empty Map.empty "[]" 0 "srt byDate rs"]
  by (simp add: generateStatistics_Study_def Let_def split_def)

lemma generateStatistics_Study_days:
  "TotalMinutesPerDay (generateStatistics_Study srt rs) =
     Some (foldl addToTotalMinutesPerDay [] (srt byDate rs))"
  using days_foldl_addRecord[of Map.empty Map.empty "[]" 0 "srt byDate rs"]
  by (simp add: generateStatistics_Study_def Let_def split_def)

lemma sum_list_mset_cong:
  fixes f :: "'a \<Rightarrow> 'b :: comm_monoid_add"
  assumes "mset xs = mset ys"
  shows "sum_list (map f xs) = sum_list (map f ys)"
proof -
  have "sum_list (map f xs) = sum_mset (image_mset f (mset xs))"
    by (metis mset_map sum_mset_sum_list)
  also have "\<dots> = sum_mset (image_mset f (mset ys))" using assms by simp
  also have "\<dots> = sum_list (map f ys)" by (metis mset_map sum_mset_sum_list)
  finally show ?thesis .
qed

lemma sorts_mset: "sorts srt \<Longrightarrow> mset (srt lt xs) = mset xs"
  by (simp add: sorts_def)

lemma total_generateStatistics_Map:
  "TotalQuestionsCracked_Map (foldl countQuestion_Map st qs) =
     TotalQuestionsCracked_Map st + of_nat (length qs)"
  by (induction qs arbitrary: st) (simp_all add: countQuestion_Map_def)

lemma perTag_generateStatistics_Map:
  "index (QuestionsCrackedPerTag_Map (foldl countQuestion_Map st qs)) t =
     index (QuestionsCrackedPerTag_Map st) t + of_nat (\<Sum>q\<leftarrow>qs. count_list (Tags q) t)"
  by (induction qs arbitrary: st) (simp_all add: countQuestion_Map_def index_foldl_addTo)

lemma sint_sum_list:
  fixes ws :: "go_int list"
  assumes "- (2 ^ 63) \<le> (\<Sum>w\<leftarrow>ws. sint w)" "(\<Sum>w\<leftarrow>ws. sint w) < 2 ^ 63"
  shows "sint (sum_list ws) = (\<Sum>w\<leftarrow>ws. sint w)"
proof -
  have "sum_list ws = word_of_int (\<Sum>w\<leftarrow>ws. sint w)"
    by (induction ws) simp_all
  then have "sint (sum_list ws) = signed_take_bit 63 (\<Sum>w\<leftarrow>ws. sint w)"
    by (simp add: signed_of_int)
  then show ?thesis using assms by (simp add: signed_take_bit_int_eq_self)
qed

section \<open>One step of \<^verbatim>\<open>addToTotalMinutesPerDay\<close>\<close>

lemma addExisting_found:
  "Date_Record r \<notin> Date_StudyDay ` set earlier \<Longrightarrow> Date_StudyDay day = Date_Record r \<Longrightarrow>
   addExisting (earlier @ day # later) r =
     Some (earlier @ day\<lparr>Minutes_StudyDay := Minutes_StudyDay day + Minutes r,
                          Themes := addTo (Themes day) (Theme r) (Minutes r)\<rparr> # later)"
  by (induction earlier) auto

lemma addExisting_new:
  "Date_Record r \<notin> Date_StudyDay ` set days \<Longrightarrow> addExisting days r = None"
  by (induction days) auto

section \<open>The first loop of \<^verbatim>\<open>putMultipleItemsToDynamoDB\<close>\<close>

lemma writeRequests_Inr:
  "writeRequests studies = Inr items \<Longrightarrow> study \<in> set studies \<Longrightarrow>
     \<exists>minutes. Atoi (StudyMinutes study) = Inr minutes"
  by (induction studies arbitrary: items) (auto split: sum.splits)

lemma writeRequests_bad:
  assumes "\<exists>study\<in>set studies. \<exists>err. Atoi (StudyMinutes study) = Inl err"
  shows "\<exists>err. writeRequests studies = Inl err"
proof (cases "writeRequests studies")
  case (Inl err)
  then show ?thesis by blast
next
  case (Inr items)
  then show ?thesis using assms writeRequests_Inr[OF Inr] by fastforce
qed

lemma writeRequests_good:
  "writeRequests studies = Inr items \<Longrightarrow>
     length items = length studies \<and>
     (\<forall>i<length studies.
        study_theme (items ! i) = StudyTheme (studies ! i) \<and>
        study_date (items ! i) = StudyDate (studies ! i) \<and>
        Atoi (StudyMinutes (studies ! i)) = Inr (minutes_of_study (items ! i)))"
proof (induction studies arbitrary: items)
  case Nil
  then show ?case by simp
next
  case (Cons study studies)
  from Cons.prems obtain minutes rest where
    m: "Atoi (StudyMinutes study) = Inr minutes" and r: "writeRequests studies = Inr rest" and
    i: "items = \<lparr>study_theme = StudyTheme study, study_date = StudyDate study,
                   minutes_of_study = minutes\<rparr> # rest"
    by (auto split: sum.splits)
  from Cons.IH[OF r] have l: "length rest = length studies"
    and a: "\<And>j. j < length studies \<Longrightarrow>
        study_theme (rest ! j) = StudyTheme (studies ! j) \<and>
        study_date (rest ! j) = StudyDate (studies ! j) \<and>
        Atoi (StudyMinutes (studies ! j)) = Inr (minutes_of_study (rest ! j))"
    by auto
  show ?case
  proof (intro conjI allI impI)
    show "length items = length (study # studies)" using l i by simp
  next
    fix k assume "k < length (study # studies)"
    then show "study_theme (items ! k) = StudyTheme ((study # studies) ! k)"
      and "study_date (items ! k) = StudyDate ((study # studies) ! k)"
      and "Atoi (StudyMinutes ((study # studies) ! k)) = Inr (minutes_of_study (items ! k))"
      using a[of "k - 1"] m i by (cases k; simp)+
  qed
qed

section \<open>Dates that parse\<close>

lemma isDigit_iff: "isDigit c = (48 \<le> (of_char c :: nat) \<and> (of_char c :: nat) \<le> 57)"
  by (simp add: isDigit_def less_eq_char_def)

lemma digit_less: "isDigit c \<Longrightarrow> digit c < 10"
  by (auto simp: isDigit_iff digit_def)

lemma digit_inj: "isDigit a \<Longrightarrow> isDigit b \<Longrightarrow> digit a = digit b \<Longrightarrow> a = b"
proof -
  assume "isDigit a" "isDigit b" "digit a = digit b"
  then have "48 \<le> (of_char a :: nat)" "48 \<le> (of_char b :: nat)"
    "(of_char a :: nat) - 48 = of_char b - 48"
    by (simp_all add: isDigit_iff digit_def)
  then have "(of_char a :: nat) = of_char b" by (simp only: eq_diff_iff)
  then show "a = b" by simp
qed

lemma getnum_Some:
  "getnum s = Some (n, rest) \<Longrightarrow>
     \<exists>a b. s = a # b # rest \<and> isDigit a \<and> isDigit b \<and> n = digit a * 10 + digit b"
  by (cases s rule: getnum.cases) (auto split: if_splits)

lemma getyear_Some:
  "getyear s = Some (n, rest) \<Longrightarrow>
     \<exists>a b c d. s = a # b # c # d # rest \<and> isDigit a \<and> isDigit b \<and> isDigit c \<and> isDigit d \<and>
        n = digit a * 1000 + digit b * 100 + digit c * 10 + digit d"
  by (cases s rule: getyear.cases) (auto split: if_splits)

lemma skip_Some: "skip s = Some rest \<Longrightarrow> s = CHR ''/'' # rest"
  by (cases s) (auto split: if_splits)

lemma parseDate_Some:
  assumes "parseDate s = Some (year, month, day)"
  shows "\<exists>d1 d2 m1 m2 y1 y2 y3 y4.
     s = [d1, d2, CHR ''/'', m1, m2, CHR ''/'', y1, y2, y3, y4] \<and>
     isDigit d1 \<and> isDigit d2 \<and> isDigit m1 \<and> isDigit m2 \<and>
     isDigit y1 \<and> isDigit y2 \<and> isDigit y3 \<and> isDigit y4 \<and>
     day = digit d1 * 10 + digit d2 \<and> month = digit m1 * 10 + digit m2 \<and>
     year = digit y1 * 1000 + digit y2 * 100 + digit y3 * 10 + digit y4"
proof -
  from assms obtain dd v1 where g1: "getnum s = Some (dd, v1)"
    by (auto simp: parseDate_def split: option.splits)
  from assms g1 obtain v2 where s1: "skip v1 = Some v2"
    by (auto simp: parseDate_def split: option.splits)
  from assms g1 s1 obtain mm v3 where g2: "getnum v2 = Some (mm, v3)"
    by (auto simp: parseDate_def split: option.splits)
  from assms g1 s1 g2 obtain v4 where s2: "skip v3 = Some v4"
    by (auto simp: parseDate_def split: option.splits if_splits)
  from assms g1 s1 g2 s2 obtain yy v5 where g3: "getyear v4 = Some (yy, v5)"
    by (auto simp: parseDate_def split: option.splits if_splits)
  from assms g1 s1 g2 s2 g3 have e: "v5 = []" "year = yy" "month = mm" "day = dd"
    by (auto simp: parseDate_def split: option.splits if_splits)
  from getnum_Some[OF g1] obtain d1 d2 where
    a: "s = d1 # d2 # v1" "isDigit d1" "isDigit d2" "dd = digit d1 * 10 + digit d2" by blast
  from getnum_Some[OF g2] obtain m1 m2 where
    b: "v2 = m1 # m2 # v3" "isDigit m1" "isDigit m2" "mm = digit m1 * 10 + digit m2" by blast
  from getyear_Some[OF g3] obtain y1 y2 y3 y4 where
    c: "v4 = y1 # y2 # y3 # y4 # v5" "isDigit y1" "isDigit y2" "isDigit y3" "isDigit y4"
       "yy = digit y1 * 1000 + digit y2 * 100 + digit y3 * 10 + digit y4" by blast
  have "s = [d1, d2, CHR ''/'', m1, m2, CHR ''/'', y1, y2, y3, y4]"
    using a(1) b(1) c(1) e(1) skip_Some[OF s1] skip_Some[OF s2] by simp
  then show ?thesis using a b c e by blast
qed

lemma split_digits:
  fixes x y k :: nat
  assumes "x * k + y = x' * k + y'" and "y < k" and "y' < k"
  shows "x = x' \<and> y = y'"
proof -
  have "(x * k + y) div k = x" "(x' * k + y') div k = x'" using assms(2,3) by simp_all
  moreover have "(x * k + y) mod k = y" "(x' * k + y') mod k = y'" using assms(2,3) by simp_all
  ultimately show ?thesis using assms(1) by metis
qed

lemma two_digits_inj:
  "isDigit a \<Longrightarrow> isDigit b \<Longrightarrow> isDigit a' \<Longrightarrow> isDigit b' \<Longrightarrow>
   digit a * 10 + digit b = digit a' * 10 + digit b' \<Longrightarrow> a = a' \<and> b = b'"
proof -
  assume d: "isDigit a" "isDigit b" "isDigit a'" "isDigit b'"
    and e: "digit a * 10 + digit b = digit a' * 10 + digit b'"
  have "digit a = digit a' \<and> digit b = digit b'"
    using split_digits[OF e] d digit_less by blast
  then show ?thesis using d digit_inj by blast
qed

lemma four_digits_inj:
  "isDigit a \<Longrightarrow> isDigit b \<Longrightarrow> isDigit c \<Longrightarrow> isDigit d \<Longrightarrow>
   isDigit a' \<Longrightarrow> isDigit b' \<Longrightarrow> isDigit c' \<Longrightarrow> isDigit d' \<Longrightarrow>
   digit a * 1000 + digit b * 100 + digit c * 10 + digit d =
     digit a' * 1000 + digit b' * 100 + digit c' * 10 + digit d' \<Longrightarrow>
   a = a' \<and> b = b' \<and> c = c' \<and> d = d'"
proof -
  assume g: "isDigit a" "isDigit b" "isDigit c" "isDigit d"
    "isDigit a'" "isDigit b'" "isDigit c'" "isDigit d'"
    and e: "digit a * 1000 + digit b * 100 + digit c * 10 + digit d =
     digit a' * 1000 + digit b' * 100 + digit c' * 10 + digit d'"
  have "(digit a * 100 + digit b * 10 + digit c) * 10 + digit d =
        (digit a' * 100 + digit b' * 10 + digit c') * 10 + digit d'"
    using e by simp
  from split_digits[OF this] g(4,8) digit_less
  have 1: "digit a * 100 + digit b * 10 + digit c = digit a' * 100 + digit b' * 10 + digit c'"
    and d: "digit d = digit d'" by blast+
  have "(digit a * 10 + digit b) * 10 + digit c = (digit a' * 10 + digit b') * 10 + digit c'"
    using 1 by simp
  from split_digits[OF this] g(3,7) digit_less
  have 2: "digit a * 10 + digit b = digit a' * 10 + digit b'" and c: "digit c = digit c'"
    by blast+
  from split_digits[OF 2] g(2,6) digit_less
  have "digit a = digit a'" and "digit b = digit b'" by blast+
  then show ?thesis using c d g digit_inj by blast
qed

lemma parseDate_inj:
  assumes "parseDate s = Some t" and "parseDate s' = Some t"
  shows "s = s'"
proof -
  obtain year month day where t: "t = (year, month, day)" by (cases t) auto
  from parseDate_Some[OF assms(1)[unfolded t]] obtain d1 d2 m1 m2 y1 y2 y3 y4 where
    a: "s = [d1, d2, CHR ''/'', m1, m2, CHR ''/'', y1, y2, y3, y4]"
       "isDigit d1" "isDigit d2" "isDigit m1" "isDigit m2"
       "isDigit y1" "isDigit y2" "isDigit y3" "isDigit y4"
       "day = digit d1 * 10 + digit d2" "month = digit m1 * 10 + digit m2"
       "year = digit y1 * 1000 + digit y2 * 100 + digit y3 * 10 + digit y4" by blast
  from parseDate_Some[OF assms(2)[unfolded t]] obtain e1 e2 n1 n2 z1 z2 z3 z4 where
    b: "s' = [e1, e2, CHR ''/'', n1, n2, CHR ''/'', z1, z2, z3, z4]"
       "isDigit e1" "isDigit e2" "isDigit n1" "isDigit n2"
       "isDigit z1" "isDigit z2" "isDigit z3" "isDigit z4"
       "day = digit e1 * 10 + digit e2" "month = digit n1 * 10 + digit n2"
       "year = digit z1 * 1000 + digit z2 * 100 + digit z3 * 10 + digit z4" by blast
  have "d1 = e1 \<and> d2 = e2" using two_digits_inj[OF a(2,3) b(2,3)] a(10) b(10) by simp
  moreover have "m1 = n1 \<and> m2 = n2" using two_digits_inj[OF a(4,5) b(4,5)] a(11) b(11) by simp
  moreover have "y1 = z1 \<and> y2 = z2 \<and> y3 = z3 \<and> y4 = z4"
    using four_digits_inj[OF a(6,7,8,9) b(6,7,8,9)] a(12) b(12) by simp
  ultimately show ?thesis using a(1) b(1) by simp
qed

lemma timeOf_inj:
  "parseDate s \<noteq> None \<Longrightarrow> parseDate s' \<noteq> None \<Longrightarrow> timeOf s = timeOf s' \<Longrightarrow> s = s'"
  by (auto simp: timeOf_def intro: parseDate_inj)

lemma datesLess_parsed:
  "parseDate a \<noteq> None \<Longrightarrow> parseDate b \<noteq> None \<Longrightarrow> datesLess a b = (timeOf a < timeOf b)"
  by (auto simp: datesLess_def timeOf_def Before_def)

lemma datesLess_unparsed:
  "parseDate a = None \<or> parseDate b = None \<Longrightarrow> datesLess a b = (a < b)"
  by (auto simp: datesLess_def split: option.splits)

lemma transitiveOrdering_key:
  fixes key :: "'a \<Rightarrow> 'k :: linorder"
  assumes "\<And>a b. a \<in> A \<Longrightarrow> b \<in> A \<Longrightarrow> lt a b = (key a < key b)"
  shows "transitiveOrdering lt A"
  unfolding transitiveOrdering_def using assms by auto

lemma transitiveOrdering_datesLess_parsed:
  "\<forall>d\<in>A. parseDate d \<noteq> None \<Longrightarrow> transitiveOrdering datesLess A"
  by (rule transitiveOrdering_key[where key = timeOf]) (simp add: datesLess_parsed)

lemma transitiveOrdering_datesLess_unparsed:
  "\<forall>d\<in>A. parseDate d = None \<Longrightarrow> transitiveOrdering datesLess A"
  by (rule transitiveOrdering_key[where key = "\<lambda>d. d"]) (simp add: datesLess_unparsed)

lemma transitiveOrdering_byDate: "transitiveOrdering byDate A"
  by (rule transitiveOrdering_key[where key = "\<lambda>r. timeOf (Date_Record r)"])
     (simp add: byDate_def Before_def)

section \<open>\<^verbatim>\<open>strconv.Atoi\<close> accepts the decimal integers of the \<^verbatim>\<open>int\<close> range\<close>

lemma digits_iff:
  "(digits s n = Some v) = (list_all isDigit s \<and> v = foldl (\<lambda>n c. n * 10 + digit c) n s)"
  by (induction s arbitrary: n) auto

lemma decimal_ge: "n \<le> foldl (\<lambda>n c. n * 10 + digit c) n s"
proof (induction s arbitrary: n)
  case Nil
  then show ?case by simp
next
  case (Cons c s)
  have "n \<le> n * 10 + digit c" by simp
  also have "\<dots> \<le> foldl (\<lambda>n c. n * 10 + digit c) (n * 10 + digit c) s" by (rule Cons.IH)
  finally show ?case by simp
qed

lemma decimal_less:
  "list_all isDigit s \<Longrightarrow> foldl (\<lambda>n c. n * 10 + digit c) n s < (n + 1) * 10 ^ length s"
proof (induction s arbitrary: n)
  case Nil
  then show ?case by simp
next
  case (Cons c s)
  then have d: "digit c < 10" and r: "list_all isDigit s" by (simp_all add: digit_less)
  have "foldl (\<lambda>n c. n * 10 + digit c) (n * 10 + digit c) s < (n * 10 + digit c + 1) * 10 ^ length s"
    by (rule Cons.IH[OF r])
  also have "\<dots> \<le> ((n + 1) * 10) * 10 ^ length s"
    using d by (intro mult_right_mono) simp_all
  finally show ?case by (simp add: algebra_simps)
qed

lemma ParseUint_loop_iff:
  "n \<le> maxUint64 \<Longrightarrow>
   (ParseUint_loop n s = Inr v) =
     (list_all isDigit s \<and> v = foldl (\<lambda>n c. n * 10 + digit c) n s \<and> v \<le> maxUint64)"
proof (induction s arbitrary: n)
  case Nil
  then show ?case by auto
next
  case (Cons c s)
  let ?m = "n * 10 + digit c"
  show ?case
  proof (cases "isDigit c \<and> n < maxUint64 div 10 + 1 \<and> ?m \<le> maxUint64")
    case True
    then have "ParseUint_loop n (c # s) = ParseUint_loop ?m s" by simp
    then show ?thesis using Cons.IH[of ?m] True by simp
  next
    case False
    then have l: "\<forall>v. ParseUint_loop n (c # s) \<noteq> Inr v" by auto
    have "\<not> (list_all isDigit (c # s) \<and> foldl (\<lambda>n c. n * 10 + digit c) n (c # s) \<le> maxUint64)"
    proof
      assume a: "list_all isDigit (c # s) \<and> foldl (\<lambda>n c. n * 10 + digit c) n (c # s) \<le> maxUint64"
      then have "?m \<le> maxUint64" using decimal_ge[of ?m s] by simp
      moreover from this have "n < maxUint64 div 10 + 1" by (simp add: maxUint64_def)
      ultimately show False using False a by simp
    qed
    then show ?thesis using l by auto
  qed
qed

lemma ParseUint_iff:
  "(ParseUint s = Inr v) = (s \<noteq> [] \<and> list_all isDigit s \<and> v = decimal s \<and> v \<le> maxUint64)"
  using ParseUint_loop_iff[of 0 s v] by (simp add: ParseUint_def decimal_def)

lemma sint_neg_of_nat_go_int:
  assumes "k \<le> 2 ^ 63"
  shows "sint (- of_nat k :: go_int) = - int k"
proof -
  have "int k \<le> 2 ^ 63" using assms by (metis of_nat_le_numeral_power_cancel_iff)
  moreover have "(- of_nat k :: go_int) = word_of_int (- int k)" by simp
  ultimately show ?thesis
    by (simp only: signed_of_int) (simp add: signed_take_bit_int_eq_self)
qed

lemma ParseInt_iff:
  "(ParseInt s = Inr v) =
     (isNumber s \<and> - (2 ^ 63) \<le> numberOf s \<and> numberOf s < 2 ^ 63 \<and> v = word_of_int (numberOf s))"
proof (cases s)
  case Nil
  then show ?thesis by (simp add: ParseInt_def isNumber_def)
next
  case (Cons ch rest)
  let ?body = "if ch = CHR ''+'' \<or> ch = CHR ''-'' then rest else ch # rest"
  show ?thesis
  proof (cases "ParseUint ?body")
    case (Inl e)
    then have "\<forall>v. ParseUint ?body \<noteq> Inr v" by simp
    then have n: "\<not> (?body \<noteq> [] \<and> list_all isDigit ?body \<and> decimal ?body \<le> maxUint64)"
      unfolding ParseUint_iff by blast
    have "ParseInt s \<noteq> Inr v"
      using Inl unfolding Cons by (cases e) (simp_all add: ParseInt_def Let_def)
    moreover have "\<not> (isNumber s \<and> - (2 ^ 63) \<le> numberOf s \<and> numberOf s < 2 ^ 63)"
      using n Cons by (auto simp: isNumber_def numberOf_def maxUint64_def Let_def split: if_splits)
    ultimately show ?thesis by blast
  next
    case (Inr un)
    then have b: "?body \<noteq> []" "list_all isDigit ?body" "un = decimal ?body" "un \<le> maxUint64"
      unfolding ParseUint_iff by blast+
    then have i: "isNumber s" using Cons by (auto simp: isNumber_def Let_def)
    show ?thesis
      using Inr b i unfolding Cons
      by (auto simp: ParseInt_def numberOf_def Let_def)
  qed
qed


lemma decimal_short:
  assumes "list_all isDigit s" and "length s < 19"
  shows "decimal s < 2 ^ 63"
proof -
  have "decimal s < 10 ^ length s"
    using decimal_less[OF assms(1), of 0] by (simp add: decimal_def)
  also have "(10 :: nat) ^ length s \<le> 10 ^ 18"
    using assms(2) by (intro power_increasing) simp_all
  also have "(10 :: nat) ^ 18 < 2 ^ 63" by simp
  finally show ?thesis .
qed

lemma Atoi_iff:
  "(Atoi s = Inr v) =
     (isNumber s \<and> - (2 ^ 63) \<le> numberOf s \<and> numberOf s < 2 ^ 63 \<and> v = word_of_int (numberOf s))"
proof (cases "0 < length s \<and> length s < 19")
  case False
  then have "Atoi s = ParseInt s" by (auto simp: Atoi_def)
  then show ?thesis by (simp add: ParseInt_iff)
next
  case True
  then obtain ch rest where s: "s = ch # rest" by (cases s) auto
  let ?body = "if ch = CHR ''-'' \<or> ch = CHR ''+'' then rest else ch # rest"
  have len: "length ?body < 19" using True s by auto
  show ?thesis
  proof (cases "?body \<noteq> [] \<and> list_all isDigit ?body")
    case False
    then have "\<forall>n. digits ?body 0 \<noteq> Some n \<or> ?body = []" unfolding digits_iff by blast
    then have "Atoi s \<noteq> Inr v"
      using True unfolding s by (auto simp: Atoi_def split: option.splits)
    moreover have "\<not> isNumber s" using False unfolding s by (auto simp: isNumber_def Let_def)
    ultimately show ?thesis by blast
  next
    case ok: True
    then have d: "digits ?body 0 = Some (decimal ?body)"
      unfolding digits_iff by (simp add: decimal_def)
    have r: "decimal ?body < 2 ^ 63" using decimal_short[OF _ len] ok by blast
    then have ri: "int (decimal ?body) < 2 ^ 63"
      by (metis of_nat_less_numeral_power_cancel_iff)
    have i: "isNumber s" using ok unfolding s by (auto simp: isNumber_def Let_def)
    have a: "Atoi s = Inr (if ch = CHR ''-'' then - of_nat (decimal ?body) else of_nat (decimal ?body))"
      using True ok d unfolding s by (auto simp: Atoi_def)
    have n: "numberOf s = (if ch = CHR ''-'' then - int (decimal ?body) else int (decimal ?body))"
      unfolding s by (simp add: numberOf_def)
    show ?thesis unfolding a n using i ri by auto
  qed
qed

lemma Atoi_sint:
  assumes "Atoi s = Inr v"
  shows "sint v = numberOf s"
proof -
  from assms have "- (2 ^ 63) \<le> numberOf s" "numberOf s < 2 ^ 63" "v = word_of_int (numberOf s)"
    unfolding Atoi_iff by blast+
  then show ?thesis by (simp add: signed_of_int signed_take_bit_int_eq_self)
qed

lemma Atoi_rejects:
  "(\<exists>e. Atoi s = Inl e) = (\<not> (isNumber s \<and> - (2 ^ 63) \<le> numberOf s \<and> numberOf s < 2 ^ 63))"
proof -
  have "(\<exists>e. Atoi s = Inl e) = (\<not> (\<exists>v. Atoi s = Inr v))" by (cases "Atoi s") simp_all
  then show ?thesis unfolding Atoi_iff by blast
qed

section \<open>The sorted dates of the question report\<close>

lemma sorted_wrt_distinct_strict:
  "sorted_wrt P xs \<Longrightarrow> distinct xs \<Longrightarrow> sorted_wrt (\<lambda>a b. P a b \<and> a \<noteq> b) xs"
  by (induction xs) auto

lemma sortedDates_parsed_strict:
  assumes "visitsKeys rk" and "sorts srt" and "\<forall>q\<in>set qs. parseDate (Date q) \<noteq> None"
  shows "sorted_wrt (\<lambda>a b. timeOf a < timeOf b) (srt datesLess (rk (dailyStatsOf qs)))"
proof -
  let ?in = "rk (dailyStatsOf qs)"
  let ?out = "srt datesLess ?in"
  have "mset ?in = mset (map fst (dailyStatsOf qs))" using assms(1) by (simp add: visitsKeys_def)
  then have "set ?in = set (map fst (dailyStatsOf qs))" by (metis mset_eq_setD)
  then have inp: "set ?in = Date ` set qs" using keys_dailyStatsOf by simp
  then have "transitiveOrdering datesLess (set ?in)"
    using assms(3) by (intro transitiveOrdering_datesLess_parsed) auto
  then have s: "sorted_wrt (\<lambda>a b. \<not> datesLess b a) ?out" using assms(2) by (simp add: sorts_def)
  have d: "distinct ?out" and o: "set ?out = Date ` set qs"
    using sortedDates_distinct[OF assms(1,2)] by auto
  have p: "\<forall>a\<in>set ?out. parseDate a \<noteq> None" using o assms(3) by auto
  have "sorted_wrt (\<lambda>a b. \<not> datesLess b a \<and> a \<noteq> b) ?out"
    by (rule sorted_wrt_distinct_strict[OF s d])
  then show ?thesis
  proof (rule sorted_wrt_mono_rel[rotated])
    fix a b assume "a \<in> set ?out" "b \<in> set ?out" "\<not> datesLess b a \<and> a \<noteq> b"
    then show "timeOf a < timeOf b"
      using p datesLess_parsed[of b a] timeOf_inj[of a b] by force
  qed
qed

lemma sortedDates_unparsed_strict:
  assumes "visitsKeys rk" and "sorts srt" and "\<forall>q\<in>set qs. parseDate (Date q) = None"
  shows "sorted_wrt (<) (srt datesLess (rk (dailyStatsOf qs)))"
proof -
  let ?in = "rk (dailyStatsOf qs)"
  let ?out = "srt datesLess ?in"
  have "mset ?in = mset (map fst (dailyStatsOf qs))" using assms(1) by (simp add: visitsKeys_def)
  then have "set ?in = set (map fst (dailyStatsOf qs))" by (metis mset_eq_setD)
  then have inp: "set ?in = Date ` set qs" using keys_dailyStatsOf by simp
  then have "transitiveOrdering datesLess (set ?in)"
    using assms(3) by (intro transitiveOrdering_datesLess_unparsed) auto
  then have s: "sorted_wrt (\<lambda>a b. \<not> datesLess b a) ?out" using assms(2) by (simp add: sorts_def)
  have d: "distinct ?out" and o: "set ?out = Date ` set qs"
    using sortedDates_distinct[OF assms(1,2)] by auto
  have p: "\<forall>a\<in>set ?out. parseDate a = None" using o assms(3) by auto
  have "sorted_wrt (\<lambda>a b. \<not> datesLess b a \<and> a \<noteq> b) ?out"
    by (rule sorted_wrt_distinct_strict[OF s d])
  then show ?thesis
  proof (rule sorted_wrt_mono_rel[rotated])
    fix a b assume "a \<in> set ?out" "b \<in> set ?out" "\<not> datesLess b a \<and> a \<noteq> b"
    then show "a < b"
      using p datesLess_unparsed[of b a] by force
  qed
qed

lemma strictly_sorted_unique:
  fixes key :: "'a \<Rightarrow> 'k :: linorder"
  assumes "sorted_wrt (\<lambda>a b. key a < key b) xs" and "sorted_wrt (\<lambda>a b. key a < key b) ys"
    and "set xs = set ys" and "inj_on key (set xs)"
  shows "xs = ys"
proof -
  have "sorted_wrt (<) (map key xs)" "sorted_wrt (<) (map key ys)"
    using assms(1,2) by (simp_all add: sorted_wrt_map)
  moreover have "set (map key xs) = set (map key ys)" using assms(3) by simp
  ultimately have "map key xs = map key ys" by (metis strict_sorted_equal)
  then show ?thesis using assms(3,4) by (metis map_inj_on sup.idem)
qed

lemma sortedDates_parsed_unique:
  assumes "visitsKeys rk" and "sorts srt" and "visitsKeys rk'" and "sorts srt'"
    and "\<forall>q\<in>set qs. parseDate (Date q) \<noteq> None"
  shows "srt' datesLess (rk' (dailyStatsOf qs)) = srt datesLess (rk (dailyStatsOf qs))"
proof (rule strictly_sorted_unique[where key = timeOf])
  show "sorted_wrt (\<lambda>a b. timeOf a < timeOf b) (srt' datesLess (rk' (dailyStatsOf qs)))"
    by (rule sortedDates_parsed_strict[OF assms(3,4,5)])
  show "sorted_wrt (\<lambda>a b. timeOf a < timeOf b) (srt datesLess (rk (dailyStatsOf qs)))"
    by (rule sortedDates_parsed_strict[OF assms(1,2,5)])
  show "set (srt' datesLess (rk' (dailyStatsOf qs))) = set (srt datesLess (rk (dailyStatsOf qs)))"
    using sortedDates_distinct(2)[OF assms(1,2)] sortedDates_distinct(2)[OF assms(3,4)] by simp
  show "inj_on timeOf (set (srt' datesLess (rk' (dailyStatsOf qs))))"
    using sortedDates_distinct(2)[OF assms(3,4), of qs] assms(5)
    by (auto intro!: inj_onI timeOf_inj)
qed

lemma perDay_dates: "map Date_Day (perDay ds dates) = dates"
  by (simp add: perDay_def comp_def)

lemma perDay_counts:
  "e \<in> set (perDay ds dates) \<Longrightarrow> Count e = index (map_of ds) (Date_Day e)"
  by (auto simp: perDay_def)

section \<open>The series of days of the study report\<close>

lemma upTo_snoc:
  "upTo (p @ [r]) d = upTo p d @ (if timeOf (Date_Record r) \<le> timeOf d then [r] else [])"
  by (simp add: upTo_def)

lemma upTo_all: "\<forall>a\<in>set p. timeOf (Date_Record a) \<le> timeOf d \<Longrightarrow> upTo p d = p"
  by (simp add: upTo_def)

lemma daysInv_step:
  assumes inv: "daysInv p D"
    and parsed: "\<forall>a\<in>set (p @ [r]). parseDate (Date_Record a) \<noteq> None"
    and le: "\<forall>a\<in>set p. timeOf (Date_Record a) \<le> timeOf (Date_Record r)"
  shows "daysInv (p @ [r]) (addToTotalMinutesPerDay D r)"
proof -
  let ?k = "\<lambda>a. timeOf (Date_Record a)"
  from inv have I1: "Date_StudyDay ` set D = Date_Record ` set p"
    and I2: "sorted_wrt (\<lambda>a b. timeOf a < timeOf b) (map Date_StudyDay D)"
    and I3: "p = [] \<or> (D \<noteq> [] \<and> (\<forall>a\<in>set p. ?k a \<le> timeOf (Date_StudyDay (last D))))"
    and I4: "\<forall>e\<in>set D. Minutes_StudyDay e = sum_list (map Minutes (upTo p (Date_StudyDay e)))"
    unfolding daysInv_def by blast+
  show ?thesis
  proof (cases "Date_Record r \<in> Date_Record ` set p")
    case True
    then obtain a where a: "a \<in> set p" "Date_Record a = Date_Record r" by force
    then have pne: "p \<noteq> []" by auto
    with I3 have Dne: "D \<noteq> []" and mx: "\<forall>a\<in>set p. ?k a \<le> timeOf (Date_StudyDay (last D))"
      by auto
    have "Date_StudyDay (last D) \<in> Date_Record ` set p" using I1 Dne last_in_set by blast
    then obtain b where b: "b \<in> set p" "Date_Record b = Date_StudyDay (last D)" by force
    have "timeOf (Date_StudyDay (last D)) \<le> ?k r" using b le by force
    moreover have "?k r \<le> timeOf (Date_StudyDay (last D))" using a mx by force
    ultimately have "?k b = ?k r" using b by simp
    then have "Date_Record b = Date_Record r"
      using timeOf_inj[of "Date_Record b" "Date_Record r"] parsed b(1) by simp
    then have lastd: "Date_StudyDay (last D) = Date_Record r" using b by simp
    let ?E = "butlast D" and ?l = "last D"
    have D: "D = ?E @ [?l]" using Dne by simp
    have "sorted_wrt (\<lambda>a b. timeOf a < timeOf b) (map Date_StudyDay ?E @ [Date_StudyDay ?l])"
      using I2 D by (metis list.simps(8,9) map_append)
    then have before: "\<forall>e\<in>set ?E. timeOf (Date_StudyDay e) < timeOf (Date_StudyDay ?l)"
      by (simp add: sorted_wrt_append)
    then have notin: "Date_Record r \<notin> Date_StudyDay ` set ?E" using lastd by force
    let ?l' = "?l\<lparr>Minutes_StudyDay := Minutes_StudyDay ?l + Minutes r,
                    Themes := addTo (Themes ?l) (Theme r) (Minutes r)\<rparr>"
    have "addExisting (?E @ ?l # []) r = Some (?E @ ?l' # [])"
      by (rule addExisting_found[OF notin lastd])
    then have res: "addToTotalMinutesPerDay D r = ?E @ [?l']"
      using D by (simp add: addToTotalMinutesPerDay_def)
    have dl': "Date_StudyDay ?l' = Date_StudyDay ?l" by simp
    have J1: "Date_StudyDay ` set (?E @ [?l']) = Date_Record ` set (p @ [r])"
    proof -
      have "Date_StudyDay ` set (?E @ [?l']) = Date_StudyDay ` set (?E @ [?l])" by (simp add: dl')
      also have "\<dots> = Date_Record ` set p" using I1 D by simp
      finally show ?thesis using True by auto
    qed
    have J2: "sorted_wrt (\<lambda>a b. timeOf a < timeOf b) (map Date_StudyDay (?E @ [?l']))"
    proof -
      have "map Date_StudyDay (?E @ [?l']) = map Date_StudyDay (?E @ [?l])" by (simp add: dl')
      then show ?thesis using I2 D by simp
    qed
    have J3: "p @ [r] = [] \<or> (?E @ [?l'] \<noteq> [] \<and>
        (\<forall>a\<in>set (p @ [r]). ?k a \<le> timeOf (Date_StudyDay (last (?E @ [?l'])))))"
      using le lastd by simp
    have J4: "\<forall>e\<in>set (?E @ [?l']).
        Minutes_StudyDay e = sum_list (map Minutes (upTo (p @ [r]) (Date_StudyDay e)))"
    proof
      fix e assume "e \<in> set (?E @ [?l'])"
      then consider "e \<in> set ?E" | "e = ?l'" by auto
      then show "Minutes_StudyDay e = sum_list (map Minutes (upTo (p @ [r]) (Date_StudyDay e)))"
      proof cases
        case 1
        then have "\<not> ?k r \<le> timeOf (Date_StudyDay e)" using before lastd by force
        moreover have "e \<in> set D" using 1 by (rule in_set_butlastD)
        ultimately show ?thesis using I4 by (simp add: upTo_snoc)
      next
        case 2
        have "Minutes_StudyDay ?l = sum_list (map Minutes (upTo p (Date_StudyDay ?l)))"
          using I4 Dne by simp
        then show ?thesis using 2 lastd by (simp add: upTo_snoc)
      qed
    qed
    show ?thesis unfolding daysInv_def res by (intro conjI) (rule J1 J2 J3 J4)+
  next
    case False
    have lt: "\<forall>a\<in>set p. ?k a < ?k r"
    proof
      fix a assume a: "a \<in> set p"
      then have "?k a \<le> ?k r" using le by simp
      moreover have "?k a \<noteq> ?k r"
      proof
        assume "?k a = ?k r"
        moreover have "parseDate (Date_Record a) \<noteq> None" "parseDate (Date_Record r) \<noteq> None"
          using parsed a by simp_all
        ultimately have "Date_Record a = Date_Record r" by (metis timeOf_inj)
        then show False using False a by (metis imageI)
      qed
      ultimately show "?k a < ?k r" by simp
    qed
    have notin: "Date_Record r \<notin> Date_StudyDay ` set D" using False I1 by simp
    let ?n = "\<lparr>Date_StudyDay = Date_Record r,
               Minutes_StudyDay = (if D \<noteq> [] then Minutes_StudyDay (last D) else 0) + Minutes r,
               Themes = [Theme r \<mapsto> Minutes r]\<rparr>"
    have res: "addToTotalMinutesPerDay D r = D @ [?n]"
      using addExisting_new[OF notin] by (simp add: addToTotalMinutesPerDay_def)
    have dlt: "\<forall>e\<in>set D. timeOf (Date_StudyDay e) < ?k r"
    proof
      fix e assume "e \<in> set D"
      then have "Date_StudyDay e \<in> Date_Record ` set p" using I1 by blast
      then show "timeOf (Date_StudyDay e) < ?k r" using lt by force
    qed
    have J1: "Date_StudyDay ` set (D @ [?n]) = Date_Record ` set (p @ [r])" using I1 by simp
    have J2: "sorted_wrt (\<lambda>a b. timeOf a < timeOf b) (map Date_StudyDay (D @ [?n]))"
      using I2 dlt by (simp add: sorted_wrt_append)
    have J3: "p @ [r] = [] \<or> (D @ [?n] \<noteq> [] \<and>
        (\<forall>a\<in>set (p @ [r]). ?k a \<le> timeOf (Date_StudyDay (last (D @ [?n])))))"
      using le by simp
    have prev: "(if D \<noteq> [] then Minutes_StudyDay (last D) else 0) = sum_list (map Minutes p)"
    proof (cases "p = []")
      case True
      then have "D = []" using I1 by simp
      then show ?thesis using True by simp
    next
      case False
      with I3 have Dne: "D \<noteq> []" and mx: "\<forall>a\<in>set p. ?k a \<le> timeOf (Date_StudyDay (last D))"
        by auto
      have "Minutes_StudyDay (last D) = sum_list (map Minutes (upTo p (Date_StudyDay (last D))))"
        using I4 Dne by simp
      then show ?thesis using Dne upTo_all[OF mx] by simp
    qed
    have J4: "\<forall>e\<in>set (D @ [?n]).
        Minutes_StudyDay e = sum_list (map Minutes (upTo (p @ [r]) (Date_StudyDay e)))"
    proof
      fix e assume "e \<in> set (D @ [?n])"
      then consider "e \<in> set D" | "e = ?n" by auto
      then show "Minutes_StudyDay e = sum_list (map Minutes (upTo (p @ [r]) (Date_StudyDay e)))"
      proof cases
        case 1
        then have "\<not> ?k r \<le> timeOf (Date_StudyDay e)" using dlt by force
        then show ?thesis using I4 1 by (simp add: upTo_snoc)
      next
        case 2
        have "upTo p (Date_Record r) = p" using le by (intro upTo_all) simp
        then show ?thesis using 2 prev by (simp add: upTo_snoc)
      qed
    qed
    show ?thesis unfolding daysInv_def res by (intro conjI) (rule J1 J2 J3 J4)+
  qed
qed

lemma daysInv_foldl:
  assumes "\<forall>a\<in>set p. parseDate (Date_Record a) \<noteq> None"
    and "sorted_wrt (\<lambda>a b. timeOf (Date_Record a) \<le> timeOf (Date_Record b)) p"
  shows "daysInv p (foldl addToTotalMinutesPerDay [] p)"
  using assms
proof (induction p rule: rev_induct)
  case Nil
  show ?case by (simp add: daysInv_def)
next
  case (snoc r p)
  have s: "sorted_wrt (\<lambda>a b. timeOf (Date_Record a) \<le> timeOf (Date_Record b)) p"
    and le: "\<forall>a\<in>set p. timeOf (Date_Record a) \<le> timeOf (Date_Record r)"
    using snoc.prems(2) by (simp_all add: sorted_wrt_append)
  have "daysInv p (foldl addToTotalMinutesPerDay [] p)" using snoc.IH snoc.prems(1) s by simp
  then show ?case using daysInv_step[OF _ snoc.prems(1) le] by simp
qed

section \<open>The per-theme series of the study report\<close>

lemma themeSeries_snoc_other:
  "Theme r \<noteq> th \<Longrightarrow> themeSeries (p @ [r]) th = themeSeries p th"
  by (auto simp: themeSeries_def themeUpTo_def fun_eq_iff)

lemma perTheme_snoc_other: "Theme r \<noteq> th \<Longrightarrow> perTheme (p @ [r]) th = perTheme p th"
  by (auto simp: perTheme_def themeSeries_snoc_other)

lemma themeSeries_snoc_same:
  assumes parsed: "\<forall>a\<in>set (p @ [r]). parseDate (Date_Record a) \<noteq> None"
    and le: "\<forall>a\<in>set p. timeOf (Date_Record a) \<le> timeOf (Date_Record r)"
  shows "themeSeries (p @ [r]) (Theme r) =
     (case perTheme p (Theme r) of None \<Rightarrow> Map.empty | Some days \<Rightarrow> days)
       (Date_Record r \<mapsto> sum_list (map Minutes (filter (\<lambda>a. Theme a = Theme r) (p @ [r]))))"
proof (rule ext)
  fix d
  let ?th = "Theme r"
  let ?old = "case perTheme p ?th of None \<Rightarrow> Map.empty | Some days \<Rightarrow> days"
  show "themeSeries (p @ [r]) ?th d =
     (?old(Date_Record r \<mapsto> sum_list (map Minutes (filter (\<lambda>a. Theme a = ?th) (p @ [r]))))) d"
  proof (cases "d = Date_Record r")
    case True
    have "themeUpTo (p @ [r]) ?th (Date_Record r) = filter (\<lambda>a. Theme a = ?th) (p @ [r])"
      unfolding themeUpTo_def using le by (auto intro!: filter_cong)
    then show ?thesis using True by (simp add: themeSeries_def)
  next
    case False
    have old: "?old d = themeSeries p ?th d"
      by (auto simp: perTheme_def themeSeries_def)
    have "themeSeries (p @ [r]) ?th d = themeSeries p ?th d"
    proof (cases "\<exists>a\<in>set p. Theme a = ?th \<and> Date_Record a = d")
      case True
      then obtain a where a: "a \<in> set p" "Date_Record a = d" by blast
      have "timeOf d \<noteq> timeOf (Date_Record r)"
      proof
        assume "timeOf d = timeOf (Date_Record r)"
        moreover have "parseDate d \<noteq> None" "parseDate (Date_Record r) \<noteq> None"
          using parsed a by auto
        ultimately have "d = Date_Record r" by (metis timeOf_inj)
        then show False using False by simp
      qed
      moreover have "timeOf d \<le> timeOf (Date_Record r)" using a le by auto
      ultimately have "\<not> timeOf (Date_Record r) \<le> timeOf d" by simp
      then have "themeUpTo (p @ [r]) ?th d = themeUpTo p ?th d" by (simp add: themeUpTo_def)
      then show ?thesis using True by (simp add: themeSeries_def)
    next
      case no: False
      then show ?thesis using False by (auto simp: themeSeries_def)
    qed
    then show ?thesis using False old by simp
  qed
qed

lemma themes_foldl_addRecord:
  assumes "\<forall>a\<in>set p. parseDate (Date_Record a) \<noteq> None"
    and "sorted_wrt (\<lambda>a b. timeOf (Date_Record a) \<le> timeOf (Date_Record b)) p"
  shows "(\<forall>th. index (fst (foldl addRecord (Map.empty, Map.empty, [], 0) p)) th =
            sum_list (map Minutes (filter (\<lambda>a. Theme a = th) p))) \<and>
         fst (snd (foldl addRecord (Map.empty, Map.empty, [], 0) p)) = perTheme p"
  using assms
proof (induction p rule: rev_induct)
  case Nil
  show ?case by (simp add: index_def perTheme_def)
next
  case (snoc r p)
  have s: "sorted_wrt (\<lambda>a b. timeOf (Date_Record a) \<le> timeOf (Date_Record b)) p"
    and le: "\<forall>a\<in>set p. timeOf (Date_Record a) \<le> timeOf (Date_Record r)"
    using snoc.prems(2) by (simp_all add: sorted_wrt_append)
  obtain tm mp D tot where st: "foldl addRecord (Map.empty, Map.empty, [], 0) p = (tm, mp, D, tot)"
    by (metis prod_cases4)
  from snoc.IH[OF _ s] snoc.prems(1) st
  have tm: "\<And>th. index tm th = sum_list (map Minutes (filter (\<lambda>a. Theme a = th) p))"
    and mp: "mp = perTheme p" by auto
  let ?tm' = "addTo tm (Theme r) (Minutes r)"
  let ?mp' = "mp(Theme r \<mapsto>
      (case mp (Theme r) of None \<Rightarrow> Map.empty | Some days \<Rightarrow> days)
        (Date_Record r \<mapsto> index ?tm' (Theme r)))"
  have step: "foldl addRecord (Map.empty, Map.empty, [], 0) (p @ [r]) =
      (?tm', ?mp', addToTotalMinutesPerDay D r, tot + Minutes r)"
    by (simp add: st addRecord_def Let_def)
  have tm': "\<And>th. index ?tm' th = sum_list (map Minutes (filter (\<lambda>a. Theme a = th) (p @ [r])))"
    by (simp add: index_addTo tm)
  have mp': "?mp' = perTheme (p @ [r])"
  proof (rule ext)
    fix th
    show "?mp' th = perTheme (p @ [r]) th"
    proof (cases "th = Theme r")
      case True
      have "perTheme (p @ [r]) (Theme r) = Some (themeSeries (p @ [r]) (Theme r))"
        by (simp add: perTheme_def)
      then show ?thesis
        using True themeSeries_snoc_same[OF snoc.prems(1) le] tm'[of "Theme r"] mp by simp
    next
      case False
      then show ?thesis using perTheme_snoc_other[of r th p] mp by simp
    qed
  qed
  show ?case unfolding step fst_conv snd_conv using tm' mp' by blast
qed

lemma themeUpTo_mset:
  assumes "mset rs' = mset rs"
  shows "sum_list (map Minutes (themeUpTo rs' th d)) = sum_list (map Minutes (themeUpTo rs th d))"
proof -
  have "mset (themeUpTo rs' th d) = mset (themeUpTo rs th d)"
    using assms by (simp add: themeUpTo_def)
  then show ?thesis by (rule sum_list_mset_cong)
qed

lemma perTheme_mset:
  assumes "mset rs' = mset rs"
  shows "perTheme rs' = perTheme rs"
proof -
  have s: "set rs' = set rs" using assms by (rule mset_eq_setD)
  show ?thesis
    unfolding perTheme_def themeSeries_def s themeUpTo_mset[OF assms] ..
qed

lemma sorts_byDate:
  assumes "sorts srt"
  shows "mset (srt byDate rs) = mset rs"
    and "sorted_wrt (\<lambda>a b. timeOf (Date_Record a) \<le> timeOf (Date_Record b)) (srt byDate rs)"
proof -
  show "mset (srt byDate rs) = mset rs" using assms by (simp add: sorts_def)
  have "sorted_wrt (\<lambda>a b. \<not> byDate b a) (srt byDate rs)"
    using assms transitiveOrdering_byDate by (simp add: sorts_def)
  then show "sorted_wrt (\<lambda>a b. timeOf (Date_Record a) \<le> timeOf (Date_Record b)) (srt byDate rs)"
    by (simp add: byDate_def Before_def not_less)
qed

lemma generateStatistics_Study_themes:
  assumes "sorts srt" and "\<forall>r\<in>set rs. parseDate (Date_Record r) \<noteq> None"
  shows "MinutesPerThemePerDay (generateStatistics_Study srt rs) = perTheme rs"
proof -
  let ?p = "srt byDate rs"
  have m: "mset ?p = mset rs" by (rule sorts_byDate(1)[OF assms(1)])
  then have "set ?p = set rs" by (rule mset_eq_setD)
  then have parsed: "\<forall>a\<in>set ?p. parseDate (Date_Record a) \<noteq> None" using assms(2) by simp
  have "fst (snd (foldl addRecord (Map.empty, Map.empty, [], 0) ?p)) = perTheme ?p"
    using themes_foldl_addRecord[OF parsed sorts_byDate(2)[OF assms(1)]] by simp
  then have "MinutesPerThemePerDay (generateStatistics_Study srt rs) = perTheme ?p"
    by (simp add: generateStatistics_Study_def Let_def split_def)
  then show ?thesis using perTheme_mset[OF m] by simp
qed

lemma generateStatistics_Study_daysInv:
  assumes "sorts srt" and "\<forall>r\<in>set rs. parseDate (Date_Record r) \<noteq> None"
  shows "daysInv (srt byDate rs) (elems (TotalMinutesPerDay (generateStatistics_Study srt rs)))"
proof -
  let ?p = "srt byDate rs"
  have m: "mset ?p = mset rs" by (rule sorts_byDate(1)[OF assms(1)])
  then have "set ?p = set rs" by (rule mset_eq_setD)
  then have parsed: "\<forall>a\<in>set ?p. parseDate (Date_Record a) \<noteq> None" using assms(2) by simp
  show ?thesis
    using daysInv_foldl[OF parsed sorts_byDate(2)[OF assms(1)]]
    by (simp add: generateStatistics_Study_days elems_def)
qed

section \<open>Sums of signed minutes\<close>

lemma sum_list_filter_mono:
  fixes f :: "'a \<Rightarrow> int"
  assumes "\<forall>x\<in>set xs. 0 \<le> f x" and "\<forall>x\<in>set xs. P x \<longrightarrow> Q x"
  shows "0 \<le> sum_list (map f (filter P xs)) \<and>
         sum_list (map f (filter P xs)) \<le> sum_list (map f (filter Q xs))"
  using assms by (induction xs) auto

lemma sint_upTo:
  assumes nonneg: "\<forall>r\<in>set p. 0 \<le> sint (Minutes r)"
    and bound: "(\<Sum>r\<leftarrow>p. sint (Minutes r)) < 2 ^ 63"
  shows "sint (sum_list (map Minutes (upTo p d))) = (\<Sum>r\<leftarrow>upTo p d. sint (Minutes r))"
proof -
  have "0 \<le> (\<Sum>r\<leftarrow>upTo p d. sint (Minutes r)) \<and>
        (\<Sum>r\<leftarrow>upTo p d. sint (Minutes r)) \<le> (\<Sum>r\<leftarrow>filter (\<lambda>r. True) p. sint (Minutes r))"
    unfolding upTo_def using nonneg by (intro sum_list_filter_mono) auto
  then have "- (2 ^ 63) \<le> (\<Sum>r\<leftarrow>upTo p d. sint (Minutes r))"
    and "(\<Sum>r\<leftarrow>upTo p d. sint (Minutes r)) < 2 ^ 63"
    using bound by simp_all
  then show ?thesis using sint_sum_list[of "map Minutes (upTo p d)"] by (simp add: comp_def)
qed

lemma sum_sint_mset:
  assumes "mset p = mset rs"
  shows "(\<Sum>r\<leftarrow>p. sint (Minutes r)) = (\<Sum>r\<leftarrow>rs. sint (Minutes r))"
  using assms by (rule sum_list_mset_cong)

lemmas evalStudy =
  generateStatistics_Study_def insertionSort_def byDate_def timeOf_def Before_def parseDate_def
  isDigit_def digit_def daysIn_def isLeap_def addRecord_def addToTotalMinutesPerDay_def
  addTo_def index_def elems_def zeroTime_def

section \<open>The scenario\<close>

lemma parsed_scenario: "\<forall>r\<in>set scenario. parseDate (Date_Record r) \<noteq> None"
  by (simp add: scenario_def parseDate_def isDigit_def digit_def daysIn_def)

lemma upTo_mset:
  assumes "mset rs' = mset rs"
  shows "sum_list (map Minutes (upTo rs' d)) = sum_list (map Minutes (upTo rs d))"
proof -
  have "mset (upTo rs' d) = mset (upTo rs d)" using assms by (simp add: upTo_def)
  then show ?thesis by (rule sum_list_mset_cong)
qed

section \<open>The buckets of the study report\<close>

lemma bucketsInv_step:
  assumes inv: "bucketsInv p D"
  shows "bucketsInv (p @ [r]) (addToTotalMinutesPerDay D r)"
proof -
  from inv have I1: "distinct (map Date_StudyDay D)"
    and I2: "Date_StudyDay ` set D = Date_Record ` set p"
    and I3: "\<And>e th. e \<in> set D \<Longrightarrow> index (Themes e) th =
         sum_list (map Minutes (filter (\<lambda>r. Date_Record r = Date_StudyDay e \<and> Theme r = th) p))"
    unfolding bucketsInv_def by blast+
  show ?thesis
  proof (cases "Date_Record r \<in> Date_StudyDay ` set D")
    case True
    then have "\<exists>e\<in>set D. Date_StudyDay e = Date_Record r" by auto
    then obtain E d L where D: "D = E @ d # L" and d: "Date_StudyDay d = Date_Record r"
      and E: "\<forall>e\<in>set E. Date_StudyDay e \<noteq> Date_Record r"
      using split_list_first_prop[of D "\<lambda>e. Date_StudyDay e = Date_Record r"] by blast
    have notin: "Date_Record r \<notin> Date_StudyDay ` set E" using E by auto
    let ?d' = "d\<lparr>Minutes_StudyDay := Minutes_StudyDay d + Minutes r,
                  Themes := addTo (Themes d) (Theme r) (Minutes r)\<rparr>"
    have res: "addToTotalMinutesPerDay D r = E @ ?d' # L"
      using addExisting_found[OF notin d, of L] D by (simp add: addToTotalMinutesPerDay_def)
    have dates: "map Date_StudyDay (E @ ?d' # L) = map Date_StudyDay D" using D by simp
    have J1: "distinct (map Date_StudyDay (E @ ?d' # L))" using I1 dates by simp
    have J2: "Date_StudyDay ` set (E @ ?d' # L) = Date_Record ` set (p @ [r])"
    proof -
      have "Date_StudyDay ` set (E @ ?d' # L) = Date_StudyDay ` set D"
        using D by (auto simp: image_Un)
      then show ?thesis using I2 True by auto
    qed
    have "Date_Record r \<notin> Date_StudyDay ` set L" using I1 D d by auto
    then have L: "\<forall>e\<in>set L. Date_StudyDay e \<noteq> Date_Record r" by (metis imageI)
    have J3: "\<forall>e\<in>set (E @ ?d' # L). \<forall>th. index (Themes e) th =
         sum_list (map Minutes
           (filter (\<lambda>a. Date_Record a = Date_StudyDay e \<and> Theme a = th) (p @ [r])))"
    proof (intro ballI allI)
      fix e th assume "e \<in> set (E @ ?d' # L)"
      then consider "e = ?d'" | "e \<in> set E \<union> set L" by auto
      then show "index (Themes e) th = sum_list (map Minutes
           (filter (\<lambda>a. Date_Record a = Date_StudyDay e \<and> Theme a = th) (p @ [r])))"
      proof cases
        case 1
        have "d \<in> set D" using D by simp
        from I3[OF this, of th] I3[OF this, of "Theme r"] show ?thesis
          using 1 d by (simp add: index_addTo)
      next
        case 2
        then have "Date_StudyDay e \<noteq> Date_Record r" using E L by auto
        moreover have "e \<in> set D" using 2 D by auto
        ultimately show ?thesis using I3[of e th] by auto
      qed
    qed
    show ?thesis unfolding bucketsInv_def res by (intro conjI) (rule J1 J2 J3)+
  next
    case False
    let ?n = "\<lparr>Date_StudyDay = Date_Record r,
               Minutes_StudyDay = (if D \<noteq> [] then Minutes_StudyDay (last D) else 0) + Minutes r,
               Themes = [Theme r \<mapsto> Minutes r]\<rparr>"
    have res: "addToTotalMinutesPerDay D r = D @ [?n]"
      using addExisting_new[OF False] by (simp add: addToTotalMinutesPerDay_def)
    have J1: "distinct (map Date_StudyDay (D @ [?n]))" using I1 False by auto
    have J2: "Date_StudyDay ` set (D @ [?n]) = Date_Record ` set (p @ [r])" using I2 by simp
    have np: "\<forall>a\<in>set p. Date_Record a \<noteq> Date_Record r" using False I2 by (metis imageI)
    have none: "filter (\<lambda>a. Date_Record a = Date_Record r \<and> Theme a = th) p = []" for th
      using np by (simp add: filter_empty_conv)
    have J3: "\<forall>e\<in>set (D @ [?n]). \<forall>th. index (Themes e) th =
         sum_list (map Minutes
           (filter (\<lambda>a. Date_Record a = Date_StudyDay e \<and> Theme a = th) (p @ [r])))"
    proof (intro ballI allI)
      fix e th assume "e \<in> set (D @ [?n])"
      then consider "e = ?n" | "e \<in> set D" by auto
      then show "index (Themes e) th = sum_list (map Minutes
           (filter (\<lambda>a. Date_Record a = Date_StudyDay e \<and> Theme a = th) (p @ [r])))"
      proof cases
        case 1
        then show ?thesis using none[of th] by (simp add: index_def)
      next
        case 2
        then have "Date_StudyDay e \<noteq> Date_Record r" using False by (metis imageI)
        then show ?thesis using I3[OF 2, of th] by auto
      qed
    qed
    show ?thesis unfolding bucketsInv_def res by (intro conjI) (rule J1 J2 J3)+
  qed
qed

lemma bucketsInv_foldl: "bucketsInv p (foldl addToTotalMinutesPerDay [] p)"
proof (induction p rule: rev_induct)
  case Nil
  show ?case by (simp add: bucketsInv_def)
next
  case (snoc r p)
  then show ?case using bucketsInv_step by simp
qed

lemma bucket_mset:
  assumes "mset rs' = mset rs"
  shows "sum_list (map Minutes (filter P rs')) = sum_list (map Minutes (filter P rs))"
proof -
  have "mset (filter P rs') = mset (filter P rs)" using assms by simp
  then show ?thesis by (rule sum_list_mset_cong)
qed

lemma generateStatistics_Study_buckets:
  assumes "sorts srt"
  shows "bucketsInv rs (elems (TotalMinutesPerDay (generateStatistics_Study srt rs)))"
proof -
  let ?p = "srt byDate rs"
  have m: "mset ?p = mset rs" by (rule sorts_byDate(1)[OF assms])
  have s: "set ?p = set rs" using m by (rule mset_eq_setD)
  have "bucketsInv ?p (elems (TotalMinutesPerDay (generateStatistics_Study srt rs)))"
    using bucketsInv_foldl[of ?p] by (simp add: generateStatistics_Study_days elems_def)
  then show ?thesis unfolding bucketsInv_def s bucket_mset[OF m] .
qed

section \<open>Evaluation on concrete inputs\<close>

lemmas evalQuestions =
  generateStatistics_def getSortedDates_def countQuestion_def addToRanged_def orderDay_def
  go_append_def insertionSort_def datesLess_def Before_def parseDate_def isDigit_def digit_def
  daysIn_def isLeap_def addTo_def index_def elems_def

text \<open>
  In the study report dates that do not parse all count as the zero time, so the sort
  leaves the records \<open>unparsedDays\<close> in place, and the theme's entry on \<^verbatim>\<open>x\<close> is 7 and on \<^verbatim>\<open>y\<close>
  is 3.
\<close>

lemma unparsedDays_themes:
  "map (\<lambda>r. parseDate (Date_Record r)) unparsedDays = [None, None, None] \<and>
   MinutesPerThemePerDay (generateStatistics_Study insertionSort unparsedDays) ''t'' =
     Some [''x'' \<mapsto> 7, ''y'' \<mapsto> 3]"
proof -
  have "MinutesPerThemePerDay (generateStatistics_Study insertionSort unparsedDays) ''t'' =
     Some [''x'' \<mapsto> 1, ''y'' \<mapsto> 3, ''x'' \<mapsto> 7]"
    by (simp add: unparsedDays_def evalStudy)
  moreover have "[''x'' \<mapsto> 1, ''y'' \<mapsto> 3, ''x'' \<mapsto> (7 :: go_int)] = [''x'' \<mapsto> 7, ''y'' \<mapsto> 3]"
    by (rule ext) simp
  ultimately show ?thesis
    by (simp add: unparsedDays_def parseDate_def isDigit_def digit_def)
qed

lemmas evalAtoi =
  Atoi_def ParseInt_def ParseUint_def maxUint64_def isDigit_def digit_def

lemma timeOf_Before:
  "parseDate a \<noteq> None \<Longrightarrow> parseDate b \<noteq> None \<Longrightarrow> timeOf a < timeOf b \<Longrightarrow>
   \<exists>ti tj. parseDate a = Some ti \<and> parseDate b = Some tj \<and> Before ti tj"
  by (auto simp: timeOf_def Before_def)

section \<open>C1: the total\<close>

text \<open>
  C1, as the code has it.  The total of every report is the sum of the metrics of all
  records in Go's integer arithmetic, which wraps around at 64 bits: each question counts
  1, so \<^verbatim>\<open>TotalQuestionsCracked\<close> is the number of questions (in both question reports), and
  \<^verbatim>\<open>TotalMinutesStudied\<close> is the sum of the minutes.  When the sum of the minutes as integers
  fits a Go \<^verbatim>\<open>int\<close>, the total read as a signed integer is that sum; the number of
  questions fits whenever it is below \<open>2^63\<close>, as the length of every Go slice is.  Any
  rearrangement of the input gives the same totals.  This holds for every visiting order
  of the map and every library sort.
\<close>

theorem C1_total_is_sum_of_metrics:
  assumes "sorts sortSlice"
  shows "TotalQuestionsCracked (generateStatistics rangeKeys sortSliceStable questions) =
           of_nat (length questions) \<and>
         TotalQuestionsCracked_Map (generateStatistics_Map questions) = of_nat (length questions) \<and>
         TotalMinutesStudied (generateStatistics_Study sortSlice records) =
           sum_list (map Minutes records) \<and>
         (- (2 ^ 63) \<le> (\<Sum>r\<leftarrow>records. sint (Minutes r)) \<and> (\<Sum>r\<leftarrow>records. sint (Minutes r)) < 2 ^ 63 \<longrightarrow>
            sint (TotalMinutesStudied (generateStatistics_Study sortSlice records)) =
              (\<Sum>r\<leftarrow>records. sint (Minutes r))) \<and>
         (\<forall>questions'. mset questions' = mset questions \<longrightarrow>
            TotalQuestionsCracked (generateStatistics rangeKeys sortSliceStable questions') =
              TotalQuestionsCracked (generateStatistics rangeKeys sortSliceStable questions) \<and>
            TotalQuestionsCracked_Map (generateStatistics_Map questions') =
              TotalQuestionsCracked_Map (generateStatistics_Map questions)) \<and>
         (\<forall>records'. mset records' = mset records \<longrightarrow>
            TotalMinutesStudied (generateStatistics_Study sortSlice records') =
              TotalMinutesStudied (generateStatistics_Study sortSlice records)) \<and>
         (length questions < 2 ^ 63 \<longrightarrow>
            sint (TotalQuestionsCracked (generateStatistics rangeKeys sortSliceStable questions)) =
              int (length questions) \<and>
            sint (TotalQuestionsCracked_Map (generateStatistics_Map questions)) =
              int (length questions))"
proof -
  have study: "\<And>rs. TotalMinutesStudied (generateStatistics_Study sortSlice rs) =
      sum_list (map Minutes rs)"
    using sum_list_mset_cong[OF sorts_mset[OF assms]] by (simp add: generateStatistics_Study_total)
  have mp: "\<And>qs. TotalQuestionsCracked_Map (generateStatistics_Map qs) = of_nat (length qs)"
    by (simp add: generateStatistics_Map_def total_generateStatistics_Map)
  have signed: "- (2 ^ 63) \<le> (\<Sum>r\<leftarrow>records. sint (Minutes r)) \<and> (\<Sum>r\<leftarrow>records. sint (Minutes r)) < 2 ^ 63 \<longrightarrow>
      sint (sum_list (map Minutes records)) = (\<Sum>r\<leftarrow>records. sint (Minutes r))"
    using sint_sum_list[of "map Minutes records"] by (simp add: comp_def)
  have E: "\<forall>qs'. mset qs' = mset questions \<longrightarrow>
      (of_nat (length qs') :: go_int) = of_nat (length questions)"
    by (metis size_mset)
  have F: "\<forall>rs'. mset rs' = mset records \<longrightarrow>
      sum_list (map Minutes rs') = sum_list (map Minutes records)"
    using sum_list_mset_cong by blast
  have G: "length questions < 2 ^ 63 \<longrightarrow>
      sint (of_nat (length questions) :: go_int) = int (length questions)"
    using sint_of_nat_go_int by blast
  show ?thesis
    unfolding study mp total_generateStatistics using signed E F G by blast
qed

theorem C1_total_is_sum_of_metrics_witness:
  "sorts (insertionSort :: (StudyRecord \<Rightarrow> StudyRecord \<Rightarrow> bool) \<Rightarrow> _) \<and>
   TotalQuestionsCracked (generateStatistics (map fst) insertionSort threeQuestions) = 3 \<and>
   sint (TotalQuestionsCracked (generateStatistics (map fst) insertionSort threeQuestions)) = 3 \<and>
   TotalQuestionsCracked (generateStatistics (map fst) insertionSort (rev threeQuestions)) = 3 \<and>
   TotalMinutesStudied (generateStatistics_Study insertionSort scenario) = 60 \<and>
   sint (TotalMinutesStudied (generateStatistics_Study insertionSort scenario)) = 60 \<and>
   TotalMinutesStudied (generateStatistics_Study insertionSort (rev scenario)) = 60"
proof -
  note t = C1_total_is_sum_of_metrics[OF sorts_insertionSort, of "map fst" insertionSort
      threeQuestions scenario]
  note tA = t[THEN conjunct1]
  note tC = t[THEN conjunct2, THEN conjunct2, THEN conjunct1]
  note tD = t[THEN conjunct2, THEN conjunct2, THEN conjunct2, THEN conjunct1]
  note tE = t[THEN conjunct2, THEN conjunct2, THEN conjunct2, THEN conjunct2, THEN conjunct1]
  note tF = t[THEN conjunct2, THEN conjunct2, THEN conjunct2, THEN conjunct2, THEN conjunct2,
      THEN conjunct1]
  note tG = t[THEN conjunct2, THEN conjunct2, THEN conjunct2, THEN conjunct2, THEN conjunct2,
      THEN conjunct2]
  have q: "TotalQuestionsCracked (generateStatistics (map fst) insertionSort threeQuestions) = 3"
    unfolding tA by (simp add: threeQuestions_def)
  have "length threeQuestions < 2 ^ 63" by (simp add: threeQuestions_def)
  then have "sint (TotalQuestionsCracked (generateStatistics (map fst) insertionSort threeQuestions)) =
      int (length threeQuestions)"
    using tG by blast
  then have qi: "sint (TotalQuestionsCracked (generateStatistics (map fst) insertionSort threeQuestions)) = 3"
    by (simp add: threeQuestions_def)
  have q': "TotalQuestionsCracked (generateStatistics (map fst) insertionSort (rev threeQuestions)) = 3"
    using tE[THEN spec, of "rev threeQuestions"] q by simp
  have s: "TotalMinutesStudied (generateStatistics_Study insertionSort scenario) = 60"
    unfolding tC by (simp add: scenario_def)
  have s': "TotalMinutesStudied (generateStatistics_Study insertionSort (rev scenario)) = 60"
    using tF[THEN spec, of "rev scenario"] s by simp
  have "(\<Sum>r\<leftarrow>scenario. sint (Minutes r)) = 60" by (simp add: scenario_def)
  then have si: "sint (TotalMinutesStudied (generateStatistics_Study insertionSort scenario)) = 60"
    using tD by simp
  show ?thesis using q qi q' s s' si sorts_insertionSort by simp
qed

text \<open>
  The claim as worded fails when the sum overflows: two study records of \<open>2^62\<close> minutes each
  have the sum \<open>2^63\<close>, and the report's total is \<open>- 2^63\<close>.
\<close>

theorem C1_overflow_counterexample:
  "map (\<lambda>r. sint (Minutes r)) twoLongDays = [4611686018427387904, 4611686018427387904] \<and>
   (\<Sum>r\<leftarrow>twoLongDays. sint (Minutes r)) = 9223372036854775808 \<and>
   sint (TotalMinutesStudied (generateStatistics_Study insertionSort twoLongDays)) =
     - 9223372036854775808 \<and>
   sint (TotalMinutesStudied (generateStatistics_Study insertionSort twoLongDays)) \<noteq>
     (\<Sum>r\<leftarrow>twoLongDays. sint (Minutes r))"
  by (simp add: twoLongDays_def evalStudy)

section \<open>C2: one step of \<^verbatim>\<open>addToTotalMinutesPerDay\<close>\<close>



section \<open>C3: the incremental series\<close>

text \<open>
  C3.  For every list of questions (a Go slice holds fewer than \<open>2^63\<close> elements), whatever
  order \<^verbatim>\<open>range\<close> visits the map in and whatever the library sort does with the comparator:
  the incremental series has one entry per entry of the per-day series, on the same date,
  holding the sum of the per-day counts up to and including that day (the prefix sums); its
  counts, read as signed integers, never decrease; and for a non-empty input its last count
  is \<^verbatim>\<open>TotalQuestionsCracked\<close>.  For the empty input the series is empty and the total is 0.
\<close>

theorem C3_incremental_series:
  assumes "visitsKeys rangeKeys" and "sorts sortSliceStable" and "length questions < 2 ^ 63"
  shows "let stats = generateStatistics rangeKeys sortSliceStable questions;
             perDay = elems (QuestionsCrackedPerDay stats);
             incremental = elems (IncrementalQuestionsCrackedPerDay stats)
         in length incremental = length perDay \<and>
            (\<forall>i<length perDay. Date_Day (incremental ! i) = Date_Day (perDay ! i) \<and>
                Count (incremental ! i) = sum_list (map Count (take (Suc i) perDay))) \<and>
            sorted (map (\<lambda>e. sint (Count e)) incremental) \<and>
            (if questions = [] then incremental = [] \<and> TotalQuestionsCracked stats = 0
             else incremental \<noteq> [] \<and> Count (last incremental) = TotalQuestionsCracked stats)"
proof -
  let ?ds = "dailyStatsOf questions"
  let ?dates = "sortSliceStable datesLess (rangeKeys ?ds)"
  let ?n = "count_list (map Date questions)"
  let ?c = "index (map_of ?ds)"
  have c: "\<And>d. ?c d = of_nat (?n d)" by (rule index_dailyStatsOf)
  have dist: "distinct ?dates" and setd: "set ?dates = Date ` set questions"
    using sortedDates_distinct[OF assms(1,2)] by auto
  have sumn: "sum_list (map ?n ?dates) = length questions"
    using sum_counts_distinct[OF dist, of "map Date questions"] setd by simp
  have sumc: "sum_list (map ?c ?dates) = of_nat (length questions)"
  proof -
    have "map ?c ?dates = map (\<lambda>d. of_nat (?n d)) ?dates" using c by simp
    then have "sum_list (map ?c ?dates) = of_nat (sum_list (map ?n ?dates))"
      by (simp only: of_nat_sum_list_map)
    then show ?thesis using sumn by simp
  qed
  have len: "length (running ?ds 0 ?dates) = length (perDay ?ds ?dates)"
    by (simp add: length_running perDay_def)
  have pref: "\<forall>i<length (perDay ?ds ?dates).
      Date_Day (running ?ds 0 ?dates ! i) = Date_Day (perDay ?ds ?dates ! i) \<and>
      Count (running ?ds 0 ?dates ! i) = sum_list (map Count (take (Suc i) (perDay ?ds ?dates)))"
  proof (intro allI impI)
    fix i assume "i < length (perDay ?ds ?dates)"
    then have i: "i < length ?dates" by (simp add: perDay_def)
    have "map Count (take (Suc i) (perDay ?ds ?dates)) = map ?c (take (Suc i) ?dates)"
      by (simp add: perDay_def take_map comp_def)
    then show "Date_Day (running ?ds 0 ?dates ! i) = Date_Day (perDay ?ds ?dates ! i) \<and>
      Count (running ?ds 0 ?dates ! i) = sum_list (map Count (take (Suc i) (perDay ?ds ?dates)))"
      using running_nth[OF i, of ?ds 0] i by (simp add: perDay_def)
  qed
  have mono: "sorted (map (\<lambda>e. sint (Count e)) (running ?ds 0 ?dates))"
    using running_mono[of ?ds ?n 0 ?dates, OF c] sumn assms(3) by simp
  have fin: "if questions = [] then running ?ds 0 ?dates = [] \<and> (of_nat (length questions) :: go_int) = 0
             else running ?ds 0 ?dates \<noteq> [] \<and>
                  Count (last (running ?ds 0 ?dates)) = of_nat (length questions)"
  proof (cases "questions = []")
    case True
    then have "?dates = []" using setd by simp
    then show ?thesis using True by simp
  next
    case False
    then have ne: "?dates \<noteq> []" using setd by auto
    show ?thesis using False ne running_last[OF ne, of ?ds 0] sumc
      by (simp add: running_Nil_iff)
  qed
  show ?thesis
    unfolding Let_def perDay_generateStatistics incremental_generateStatistics
      total_generateStatistics
    using len pref mono fin by simp
qed

theorem C3_incremental_series_witness:
  "visitsKeys (map fst) \<and> sorts (insertionSort :: (string \<Rightarrow> string \<Rightarrow> bool) \<Rightarrow> _) \<and>
   length threeQuestions < 2 ^ 63 \<and>
   sorted (map (\<lambda>e. sint (Count e))
     (elems (IncrementalQuestionsCrackedPerDay (generateStatistics (map fst) insertionSort threeQuestions)))) \<and>
   Count (last (elems (IncrementalQuestionsCrackedPerDay
       (generateStatistics (map fst) insertionSort threeQuestions)))) =
     TotalQuestionsCracked (generateStatistics (map fst) insertionSort threeQuestions)"
proof -
  have l: "length threeQuestions < 2 ^ 63" and ne: "threeQuestions \<noteq> []"
    by (simp_all add: threeQuestions_def)
  show ?thesis
    using C3_incremental_series[OF visitsKeys_map_fst sorts_insertionSort l] l ne
      visitsKeys_map_fst sorts_insertionSort
    by (simp add: Let_def)
qed

section \<open>C4: the days in calendar order\<close>

text \<open>
  C4, as the code has it.  When every date string parses, the per-day sequence of the
  question report holds each date of the input once, each entry's calendar date strictly
  before the next one's, and it is the same sequence whatever order the map is visited in
  and whatever the library sort does with entries that compare equal: two distinct days
  never compare equal, so the stability of \<^verbatim>\<open>sort.SliceStable\<close> is not put to use.  The same
  order holds for the days of \<^verbatim>\<open>TotalMinutesPerDay\<close> in the study report, which sorts its
  records with \<^verbatim>\<open>sort.Slice\<close>.
\<close>

theorem C4_days_in_calendar_order:
  assumes "visitsKeys rangeKeys" and "sorts sortSliceStable"
    and "\<forall>q\<in>set questions. parseDate (Date q) \<noteq> None"
    and "sorts sortSlice"
    and "\<forall>r\<in>set records. parseDate (Date_Record r) \<noteq> None"
  shows "let perDay = QuestionsCrackedPerDay (generateStatistics rangeKeys sortSliceStable questions);
             days = map Date_Day (elems perDay);
             studyDays = map Date_StudyDay
               (elems (TotalMinutesPerDay (generateStatistics_Study sortSlice records)))
         in sorted_wrt (\<lambda>di dj. \<exists>ti tj. parseDate di = Some ti \<and> parseDate dj = Some tj \<and> Before ti tj)
              days \<and>
            set days = Date ` set questions \<and>
            (\<forall>rangeKeys' sortSliceStable'. visitsKeys rangeKeys' \<and> sorts sortSliceStable' \<longrightarrow>
               QuestionsCrackedPerDay (generateStatistics rangeKeys' sortSliceStable' questions) =
                 perDay) \<and>
            sorted_wrt (\<lambda>di dj. \<exists>ti tj. parseDate di = Some ti \<and> parseDate dj = Some tj \<and> Before ti tj)
              studyDays \<and>
            set studyDays = Date_Record ` set records"
proof -
  let ?out = "sortSliceStable datesLess (rangeKeys (dailyStatsOf questions))"
  let ?R = "\<lambda>di dj. \<exists>ti tj. parseDate di = Some ti \<and> parseDate dj = Some tj \<and> Before ti tj"
  have days: "map Date_Day (elems (QuestionsCrackedPerDay
      (generateStatistics rangeKeys sortSliceStable questions))) = ?out"
    by (simp add: perDay_generateStatistics perDay_dates)
  have so: "set ?out = Date ` set questions"
    by (rule sortedDates_distinct(2)[OF assms(1,2)])
  have "sorted_wrt (\<lambda>a b. timeOf a < timeOf b) ?out"
    by (rule sortedDates_parsed_strict[OF assms(1,2,3)])
  then have a: "sorted_wrt ?R ?out"
  proof (rule sorted_wrt_mono_rel[rotated])
    fix a b assume "a \<in> set ?out" "b \<in> set ?out" "timeOf a < timeOf b"
    then show "?R a b" using so assms(3) by (intro timeOf_Before) auto
  qed
  have c: "\<forall>rangeKeys' sortSliceStable'. visitsKeys rangeKeys' \<and> sorts sortSliceStable' \<longrightarrow>
      QuestionsCrackedPerDay (generateStatistics rangeKeys' sortSliceStable' questions) =
      QuestionsCrackedPerDay (generateStatistics rangeKeys sortSliceStable questions)"
  proof (intro allI impI)
    fix rk' and srt' :: "(string \<Rightarrow> string \<Rightarrow> bool) \<Rightarrow> string list \<Rightarrow> string list"
    assume "visitsKeys rk' \<and> sorts srt'"
    then have "srt' datesLess (rk' (dailyStatsOf questions)) = ?out"
      using sortedDates_parsed_unique[OF assms(1,2) _ _ assms(3)] by blast
    then show "QuestionsCrackedPerDay (generateStatistics rk' srt' questions) =
      QuestionsCrackedPerDay (generateStatistics rangeKeys sortSliceStable questions)"
      by (simp add: generateStatistics_eq)
  qed
  let ?p = "sortSlice byDate records"
  let ?D = "elems (TotalMinutesPerDay (generateStatistics_Study sortSlice records))"
  have sp: "set ?p = set records" using sorts_byDate(1)[OF assms(4)] by (rule mset_eq_setD)
  have inv: "daysInv ?p ?D" by (rule generateStatistics_Study_daysInv[OF assms(4,5)])
  then have sd: "set (map Date_StudyDay ?D) = Date_Record ` set records"
    unfolding daysInv_def using sp by simp
  have "sorted_wrt (\<lambda>a b. timeOf a < timeOf b) (map Date_StudyDay ?D)"
    using inv unfolding daysInv_def by blast
  then have d: "sorted_wrt ?R (map Date_StudyDay ?D)"
  proof (rule sorted_wrt_mono_rel[rotated])
    fix a b assume "a \<in> set (map Date_StudyDay ?D)" "b \<in> set (map Date_StudyDay ?D)"
      "timeOf a < timeOf b"
    then show "?R a b" unfolding sd using assms(5) by (intro timeOf_Before) auto
  qed
  show ?thesis unfolding Let_def days using a so c d sd by blast
qed

theorem C4_days_in_calendar_order_witness:
  "visitsKeys (map fst) \<and> sorts (insertionSort :: (string \<Rightarrow> string \<Rightarrow> bool) \<Rightarrow> _) \<and>
   sorts (insertionSort :: (StudyRecord \<Rightarrow> StudyRecord \<Rightarrow> bool) \<Rightarrow> _) \<and>
   map (\<lambda>q. parseDate (Date q)) threeQuestions =
     [Some (2024, 2, 1), Some (2024, 1, 15), Some (2024, 2, 1)] \<and>
   map (\<lambda>r. parseDate (Date_Record r)) scenario =
     [Some (2024, 1, 2), Some (2024, 1, 2), Some (2024, 1, 3)] \<and>
   map Date_Day (elems (QuestionsCrackedPerDay
       (generateStatistics (map fst) insertionSort threeQuestions))) =
     [''15/01/2024'', ''01/02/2024''] \<and>
   QuestionsCrackedPerDay (generateStatistics (\<lambda>m. rev (map fst m)) insertionSort threeQuestions) =
     QuestionsCrackedPerDay (generateStatistics (map fst) insertionSort threeQuestions) \<and>
   map Date_StudyDay (elems (TotalMinutesPerDay (generateStatistics_Study insertionSort scenario))) =
     [''02/01/2024'', ''03/01/2024'']"
proof -
  have pq: "map (\<lambda>q. parseDate (Date q)) threeQuestions =
     [Some (2024, 2, 1), Some (2024, 1, 15), Some (2024, 2, 1)]"
    by (simp add: threeQuestions_def parseDate_def isDigit_def digit_def daysIn_def isLeap_def)
  have ps: "map (\<lambda>r. parseDate (Date_Record r)) scenario =
     [Some (2024, 1, 2), Some (2024, 1, 2), Some (2024, 1, 3)]"
    by (simp add: scenario_def parseDate_def isDigit_def digit_def daysIn_def)
  have pq': "\<forall>q\<in>set threeQuestions. parseDate (Date q) \<noteq> None"
    using pq by (simp add: threeQuestions_def)
  have vr: "visitsKeys (\<lambda>m. rev (map fst m))" by (simp add: visitsKeys_def)
  note t = C4_days_in_calendar_order[OF visitsKeys_map_fst sorts_insertionSort pq'
      sorts_insertionSort parsed_scenario, unfolded Let_def]
  have e1: "map Date_Day (elems (QuestionsCrackedPerDay
       (generateStatistics (map fst) insertionSort threeQuestions))) =
     [''15/01/2024'', ''01/02/2024'']"
    by (simp add: threeQuestions_def evalQuestions)
  have e2: "QuestionsCrackedPerDay (generateStatistics (\<lambda>m. rev (map fst m)) insertionSort threeQuestions) =
     QuestionsCrackedPerDay (generateStatistics (map fst) insertionSort threeQuestions)"
    using t vr sorts_insertionSort by blast
  have e3: "map Date_StudyDay (elems (TotalMinutesPerDay
      (generateStatistics_Study insertionSort scenario))) = [''02/01/2024'', ''03/01/2024'']"
    by (simp add: scenario_def evalStudy)
  show ?thesis
    using visitsKeys_map_fst sorts_insertionSort sorts_insertionSort pq ps e1 e2 e3 by simp
qed

text \<open>
  The claim as worded fails when a date that does not parse stands among the keys: the
  comparator puts \<^verbatim>\<open>01/02/2024\<close> before \<^verbatim>\<open>10\<close> and \<^verbatim>\<open>10\<close> before \<^verbatim>\<open>15/01/2024\<close> as strings, so
  when the map is visited in that order the sort moves nothing and 1 February stays before
  15 January.
\<close>

theorem C4_mixed_dates_counterexample:
  "map Date_Day (elems (QuestionsCrackedPerDay
       (generateStatistics (map fst) insertionSort mixedQuestions))) =
     [''01/02/2024'', ''10'', ''15/01/2024''] \<and>
   parseDate ''01/02/2024'' = Some (2024, 2, 1) \<and> parseDate ''15/01/2024'' = Some (2024, 1, 15) \<and>
   Before (2024, 1, 15) (2024, 2, 1) \<and> parseDate ''10'' = None"
  by (simp add: mixedQuestions_def evalQuestions)

section \<open>C5: the per-theme cumulative series\<close>

text \<open>
  C5, as the code has it.  When every date parses: a theme has a series exactly when it has
  a record; the series of a theme has an entry on exactly the dates the theme has a record
  on; and the entry on a date holds the sum, in Go's integer arithmetic, which wraps around
  at 64 bits, of the minutes of the theme's records of that date or an earlier one.  When
  the sum of those minutes as integers fits a Go \<^verbatim>\<open>int\<close>, the entry read as a signed
  integer is that sum.  (The series is a map from the date string, which holds no order;
  the order is in the sums.)  For the scenario, whatever the library sort does with the two
  records of one day: the total is 60, the entry of \<^verbatim>\<open>02/01/2024\<close> in \<^verbatim>\<open>TotalMinutesPerDay\<close>
  has 50 minutes, and the series of \<^verbatim>\<open>math\<close> is 30 on \<^verbatim>\<open>02/01/2024\<close> and 40 on
  \<^verbatim>\<open>03/01/2024\<close>, with no other entry.
\<close>

theorem C5_per_theme_series_sparse_running_sums:
  assumes "sorts sortSlice" and "\<forall>r\<in>set records. parseDate (Date_Record r) \<noteq> None"
  shows "(let perThemePerDay = MinutesPerThemePerDay (generateStatistics_Study sortSlice records)
          in (\<forall>theme. (perThemePerDay theme = None) = (theme \<notin> Theme ` set records)) \<and>
             (\<forall>theme days. perThemePerDay theme = Some days \<longrightarrow>
                dom days = {Date_Record r | r. r \<in> set records \<and> Theme r = theme} \<and>
                (\<forall>d\<in>dom days.
                   days d =
                     Some (sum_list (map Minutes (filter
                       (\<lambda>r. Theme r = theme \<and> timeOf (Date_Record r) \<le> timeOf d) records))) \<and>
                   (- (2 ^ 63) \<le> (\<Sum>r\<leftarrow>filter
                         (\<lambda>r. Theme r = theme \<and> timeOf (Date_Record r) \<le> timeOf d) records.
                         sint (Minutes r)) \<and>
                    (\<Sum>r\<leftarrow>filter
                         (\<lambda>r. Theme r = theme \<and> timeOf (Date_Record r) \<le> timeOf d) records.
                         sint (Minutes r)) < 2 ^ 63 \<longrightarrow>
                    map_option sint (days d) =
                      Some (\<Sum>r\<leftarrow>filter
                         (\<lambda>r. Theme r = theme \<and> timeOf (Date_Record r) \<le> timeOf d) records.
                         sint (Minutes r)))))) \<and>
         (let stats = generateStatistics_Study sortSlice scenario
          in TotalMinutesStudied stats = 60 \<and>
             (\<exists>day\<in>set (elems (TotalMinutesPerDay stats)).
                Date_StudyDay day = ''02/01/2024'' \<and> Minutes_StudyDay day = 50) \<and>
             MinutesPerThemePerDay stats ''math'' =
               Some [''02/01/2024'' \<mapsto> 30, ''03/01/2024'' \<mapsto> 40])"
proof -
  have gen: "MinutesPerThemePerDay (generateStatistics_Study sortSlice records) = perTheme records"
    by (rule generateStatistics_Study_themes[OF assms])
  have a: "\<forall>theme. (perTheme records theme = None) = (theme \<notin> Theme ` set records)"
    by (auto simp: perTheme_def)
  have b: "\<forall>theme days. perTheme records theme = Some days \<longrightarrow>
      dom days = {Date_Record r | r. r \<in> set records \<and> Theme r = theme} \<and>
      (\<forall>d\<in>dom days.
         days d =
           Some (sum_list (map Minutes (filter
             (\<lambda>r. Theme r = theme \<and> timeOf (Date_Record r) \<le> timeOf d) records))) \<and>
         (- (2 ^ 63) \<le> (\<Sum>r\<leftarrow>filter
               (\<lambda>r. Theme r = theme \<and> timeOf (Date_Record r) \<le> timeOf d) records.
               sint (Minutes r)) \<and>
          (\<Sum>r\<leftarrow>filter
               (\<lambda>r. Theme r = theme \<and> timeOf (Date_Record r) \<le> timeOf d) records.
               sint (Minutes r)) < 2 ^ 63 \<longrightarrow>
          map_option sint (days d) =
            Some (\<Sum>r\<leftarrow>filter
               (\<lambda>r. Theme r = theme \<and> timeOf (Date_Record r) \<le> timeOf d) records.
               sint (Minutes r))))"
  proof (intro allI impI)
    fix theme days assume "perTheme records theme = Some days"
    then have d: "days = themeSeries records theme"
      by (simp add: perTheme_def split: if_splits)
    have dm: "dom (themeSeries records theme) =
        {Date_Record r | r. r \<in> set records \<and> Theme r = theme}"
      by (auto simp: themeSeries_def dom_def)
    have val: "\<forall>d\<in>dom (themeSeries records theme). themeSeries records theme d =
         Some (sum_list (map Minutes (filter
           (\<lambda>r. Theme r = theme \<and> timeOf (Date_Record r) \<le> timeOf d) records)))"
      by (auto simp: themeSeries_def themeUpTo_def dom_def split: if_splits)
    have "\<forall>d\<in>dom days.
         days d =
           Some (sum_list (map Minutes (filter
             (\<lambda>r. Theme r = theme \<and> timeOf (Date_Record r) \<le> timeOf d) records))) \<and>
         (- (2 ^ 63) \<le> (\<Sum>r\<leftarrow>filter
               (\<lambda>r. Theme r = theme \<and> timeOf (Date_Record r) \<le> timeOf d) records.
               sint (Minutes r)) \<and>
          (\<Sum>r\<leftarrow>filter
               (\<lambda>r. Theme r = theme \<and> timeOf (Date_Record r) \<le> timeOf d) records.
               sint (Minutes r)) < 2 ^ 63 \<longrightarrow>
          map_option sint (days d) =
            Some (\<Sum>r\<leftarrow>filter
               (\<lambda>r. Theme r = theme \<and> timeOf (Date_Record r) \<le> timeOf d) records.
               sint (Minutes r)))"
    proof (intro ballI conjI impI)
      fix day assume day: "day \<in> dom days"
      let ?rs = "filter (\<lambda>r. Theme r = theme \<and> timeOf (Date_Record r) \<le> timeOf day) records"
      show v: "days day = Some (sum_list (map Minutes ?rs))"
        using val day unfolding d by blast
      assume "- (2 ^ 63) \<le> (\<Sum>r\<leftarrow>?rs. sint (Minutes r)) \<and> (\<Sum>r\<leftarrow>?rs. sint (Minutes r)) < 2 ^ 63"
      then have "sint (sum_list (map Minutes ?rs)) = (\<Sum>r\<leftarrow>?rs. sint (Minutes r))"
        using sint_sum_list[of "map Minutes ?rs"] by (simp add: comp_def)
      then show "map_option sint (days day) = Some (\<Sum>r\<leftarrow>?rs. sint (Minutes r))"
        unfolding v by simp
    qed
    then show "dom days = {Date_Record r | r. r \<in> set records \<and> Theme r = theme} \<and>
      (\<forall>d\<in>dom days.
         days d =
           Some (sum_list (map Minutes (filter
             (\<lambda>r. Theme r = theme \<and> timeOf (Date_Record r) \<le> timeOf d) records))) \<and>
         (- (2 ^ 63) \<le> (\<Sum>r\<leftarrow>filter
               (\<lambda>r. Theme r = theme \<and> timeOf (Date_Record r) \<le> timeOf d) records.
               sint (Minutes r)) \<and>
          (\<Sum>r\<leftarrow>filter
               (\<lambda>r. Theme r = theme \<and> timeOf (Date_Record r) \<le> timeOf d) records.
               sint (Minutes r)) < 2 ^ 63 \<longrightarrow>
          map_option sint (days d) =
            Some (\<Sum>r\<leftarrow>filter
               (\<lambda>r. Theme r = theme \<and> timeOf (Date_Record r) \<le> timeOf d) records.
               sint (Minutes r))))"
      using dm unfolding d by blast
  qed
  let ?s = "generateStatistics_Study sortSlice scenario"
  let ?p = "sortSlice byDate scenario"
  have m: "mset ?p = mset scenario" by (rule sorts_byDate(1)[OF assms(1)])
  have t: "TotalMinutesStudied ?s = 60"
    using sum_list_mset_cong[OF m, of Minutes]
    by (simp add: generateStatistics_Study_total) (simp add: scenario_def)
  have inv: "daysInv ?p (elems (TotalMinutesPerDay ?s))"
    by (rule generateStatistics_Study_daysInv[OF assms(1) parsed_scenario])
  have "''02/01/2024'' \<in> Date_Record ` set ?p"
    using mset_eq_setD[OF m] by (simp add: scenario_def)
  then have "''02/01/2024'' \<in> Date_StudyDay ` set (elems (TotalMinutesPerDay ?s))"
    using inv by (simp add: daysInv_def)
  then obtain day where day: "day \<in> set (elems (TotalMinutesPerDay ?s))"
    "Date_StudyDay day = ''02/01/2024''" by auto
  have "Minutes_StudyDay day = sum_list (map Minutes (upTo ?p ''02/01/2024''))"
    using inv day unfolding daysInv_def by force
  also have "\<dots> = sum_list (map Minutes (upTo scenario ''02/01/2024''))"
    by (rule upTo_mset[OF m])
  also have "\<dots> = 50"
    by (simp add: upTo_def scenario_def timeOf_def parseDate_def isDigit_def digit_def daysIn_def)
  finally have d: "\<exists>day\<in>set (elems (TotalMinutesPerDay ?s)).
      Date_StudyDay day = ''02/01/2024'' \<and> Minutes_StudyDay day = 50"
    using day by blast
  have "MinutesPerThemePerDay ?s ''math'' = perTheme scenario ''math''"
    using generateStatistics_Study_themes[OF assms(1) parsed_scenario] by simp
  also have "\<dots> = Some (themeSeries scenario ''math'')"
    by (simp add: perTheme_def scenario_def)
  also have "themeSeries scenario ''math'' = [''02/01/2024'' \<mapsto> 30, ''03/01/2024'' \<mapsto> 40]"
    by (rule ext)
       (simp add: themeSeries_def themeUpTo_def scenario_def timeOf_def parseDate_def isDigit_def
         digit_def daysIn_def)
  finally have s: "MinutesPerThemePerDay ?s ''math'' =
      Some [''02/01/2024'' \<mapsto> 30, ''03/01/2024'' \<mapsto> 40]" .
  show ?thesis unfolding Let_def gen using a b t d s by blast
qed

theorem C5_per_theme_series_sparse_running_sums_witness:
  "sorts (insertionSort :: (StudyRecord \<Rightarrow> StudyRecord \<Rightarrow> bool) \<Rightarrow> _) \<and>
   map (\<lambda>r. parseDate (Date_Record r)) scenario =
     [Some (2024, 1, 2), Some (2024, 1, 2), Some (2024, 1, 3)] \<and>
   (\<exists>days. MinutesPerThemePerDay (generateStatistics_Study insertionSort scenario) ''algo'' =
             Some days \<and>
           dom days = {''02/01/2024''} \<and> days ''02/01/2024'' = Some 20 \<and>
           map_option sint (days ''02/01/2024'') = Some 20) \<and>
   MinutesPerThemePerDay (generateStatistics_Study insertionSort scenario) ''math'' =
     Some [''02/01/2024'' \<mapsto> 30, ''03/01/2024'' \<mapsto> 40] \<and>
   MinutesPerThemePerDay (generateStatistics_Study insertionSort scenario) ''go'' = None"
proof -
  note t = C5_per_theme_series_sparse_running_sums[OF sorts_insertionSort parsed_scenario,
      unfolded Let_def]
  note tA = t[THEN conjunct1, THEN conjunct1]
  note tB = t[THEN conjunct1, THEN conjunct2]
  note tS = t[THEN conjunct2, THEN conjunct2, THEN conjunct2]
  let ?m = "MinutesPerThemePerDay (generateStatistics_Study insertionSort scenario)"
  let ?rs = "filter (\<lambda>r. Theme r = ''algo'' \<and> timeOf (Date_Record r) \<le> timeOf ''02/01/2024'')
      scenario"
  have p: "map (\<lambda>r. parseDate (Date_Record r)) scenario =
     [Some (2024, 1, 2), Some (2024, 1, 2), Some (2024, 1, 3)]"
    by (simp add: scenario_def parseDate_def isDigit_def digit_def daysIn_def)
  have "?m ''algo'' \<noteq> None" using tA[THEN spec, of "''algo''"] by (simp add: scenario_def)
  then obtain days where days: "?m ''algo'' = Some days" by auto
  note tD = tB[THEN spec, THEN spec, THEN mp, OF days]
  note dom = tD[THEN conjunct1]
  have "{Date_Record r | r. r \<in> set scenario \<and> Theme r = ''algo''} =
      Date_Record ` set (filter (\<lambda>r. Theme r = ''algo'') scenario)"
    by auto
  then have dom': "dom days = {''02/01/2024''}" unfolding dom by (simp add: scenario_def)
  then have "''02/01/2024'' \<in> dom days" by simp
  note at = tD[THEN conjunct2, THEN bspec, OF this]
  have rs: "?rs = [\<lparr>Date_Record = ''02/01/2024'', Theme = ''algo'', Minutes = 20\<rparr>]"
    by (simp add: scenario_def timeOf_def parseDate_def isDigit_def digit_def daysIn_def)
  have v: "days ''02/01/2024'' = Some 20"
    using at[THEN conjunct1] unfolding rs by simp
  have "- (2 ^ 63) \<le> (\<Sum>r\<leftarrow>?rs. sint (Minutes r)) \<and> (\<Sum>r\<leftarrow>?rs. sint (Minutes r)) < 2 ^ 63"
    unfolding rs by simp
  then have "map_option sint (days ''02/01/2024'') = Some (\<Sum>r\<leftarrow>?rs. sint (Minutes r))"
    by (rule at[THEN conjunct2, THEN mp])
  then have vi: "map_option sint (days ''02/01/2024'') = Some 20"
    unfolding rs by simp
  have g: "?m ''go'' = None" using tA[THEN spec, of "''go''"] by (simp add: scenario_def)
  have e: "\<exists>days. ?m ''algo'' = Some days \<and> dom days = {''02/01/2024''} \<and>
      days ''02/01/2024'' = Some 20 \<and> map_option sint (days ''02/01/2024'') = Some 20"
    using days dom' v vi by blast
  show ?thesis
    by (intro conjI) (rule sorts_insertionSort p e tS g)+
qed

text \<open>
  The claim as worded fails when the sum overflows: both dates parse, the theme has \<open>2^62\<close>
  minutes on each of the two days, which sum to \<open>2^63\<close>, and its entry on the second day is
  \<open>- 2^63\<close>.
\<close>

theorem C5_overflow_counterexample:
  "map (\<lambda>r. parseDate (Date_Record r)) twoLongDays = [Some (2024, 1, 1), Some (2024, 1, 2)] \<and>
   map Theme twoLongDays = [''math'', ''math''] \<and>
   map (\<lambda>r. sint (Minutes r)) twoLongDays = [4611686018427387904, 4611686018427387904] \<and>
   (\<Sum>r\<leftarrow>filter (\<lambda>r. Theme r = ''math'' \<and> timeOf (Date_Record r) \<le> timeOf ''02/01/2024'')
        twoLongDays. sint (Minutes r)) = 9223372036854775808 \<and>
   map_option (map_option sint)
     (map_option (\<lambda>days. days ''02/01/2024'')
        (MinutesPerThemePerDay (generateStatistics_Study insertionSort twoLongDays) ''math'')) =
     Some (Some (- 9223372036854775808))"
  by (simp add: twoLongDays_def evalStudy)

section \<open>C6: dates that do not parse\<close>

text \<open>
  C6, as the code has it.  No report generator has an error path, and for every input,
  with dates that parse or not: the total counts every record; the per-day sequence of the
  question report has exactly one entry for each date string of the input, whose count is
  the number of questions carrying that string; the series of the study report has exactly
  one entry for each date string, whose themes hold the minutes of the records carrying
  that string.  The comparator of \<^verbatim>\<open>getSortedDates\<close> compares a pair by byte-wise string order
  as soon as one of the two does not parse, and when no date of the input parses the
  per-day sequence of the question report is in ascending string order.
\<close>

theorem C6_unparsed_dates_are_counted:
  assumes "visitsKeys rangeKeys" and "sorts sortSliceStable" and "sorts sortSlice"
  shows "let stats = generateStatistics rangeKeys sortSliceStable questions;
             perDay = elems (QuestionsCrackedPerDay stats);
             study = generateStatistics_Study sortSlice records;
             days = elems (TotalMinutesPerDay study)
         in TotalQuestionsCracked stats = of_nat (length questions) \<and>
            distinct (map Date_Day perDay) \<and>
            set (map Date_Day perDay) = Date ` set questions \<and>
            (\<forall>e\<in>set perDay. Count e = of_nat (count_list (map Date questions) (Date_Day e))) \<and>
            TotalMinutesStudied study = sum_list (map Minutes records) \<and>
            distinct (map Date_StudyDay days) \<and>
            set (map Date_StudyDay days) = Date_Record ` set records \<and>
            (\<forall>e\<in>set days. \<forall>theme. index (Themes e) theme =
               sum_list (map Minutes
                 (filter (\<lambda>r. Date_Record r = Date_StudyDay e \<and> Theme r = theme) records))) \<and>
            (\<forall>di dj. parseDate di = None \<or> parseDate dj = None \<longrightarrow> datesLess di dj = (di < dj)) \<and>
            ((\<forall>q\<in>set questions. parseDate (Date q) = None) \<longrightarrow>
               sorted_wrt (<) (map Date_Day perDay))"
proof -
  let ?ds = "dailyStatsOf questions"
  let ?out = "sortSliceStable datesLess (rangeKeys ?ds)"
  have pd: "elems (QuestionsCrackedPerDay (generateStatistics rangeKeys sortSliceStable questions)) =
      perDay ?ds ?out"
    by (rule perDay_generateStatistics)
  have a: "distinct (map Date_Day (perDay ?ds ?out))"
    and b: "set (map Date_Day (perDay ?ds ?out)) = Date ` set questions"
    using sortedDates_distinct[OF assms(1,2), of questions] by (simp_all add: perDay_dates)
  have c: "\<forall>e\<in>set (perDay ?ds ?out). Count e = of_nat (count_list (map Date questions) (Date_Day e))"
    using perDay_counts[of _ ?ds ?out] by (simp add: index_dailyStatsOf)
  have d: "TotalMinutesStudied (generateStatistics_Study sortSlice records) =
      sum_list (map Minutes records)"
    using sum_list_mset_cong[OF sorts_byDate(1)[OF assms(3)], of Minutes records]
    by (simp add: generateStatistics_Study_total)
  let ?D = "elems (TotalMinutesPerDay (generateStatistics_Study sortSlice records))"
  have "bucketsInv records ?D" by (rule generateStatistics_Study_buckets[OF assms(3)])
  then have e: "distinct (map Date_StudyDay ?D)"
    and f: "set (map Date_StudyDay ?D) = Date_Record ` set records"
    and g: "\<forall>e\<in>set ?D. \<forall>theme. index (Themes e) theme =
               sum_list (map Minutes
                 (filter (\<lambda>r. Date_Record r = Date_StudyDay e \<and> Theme r = theme) records))"
    unfolding bucketsInv_def by simp_all
  have h: "\<forall>di dj. parseDate di = None \<or> parseDate dj = None \<longrightarrow> datesLess di dj = (di < dj)"
    using datesLess_unparsed by blast
  have i: "(\<forall>q\<in>set questions. parseDate (Date q) = None) \<longrightarrow>
      sorted_wrt (<) (map Date_Day (perDay ?ds ?out))"
    using sortedDates_unparsed_strict[OF assms(1,2), of questions] by (simp add: perDay_dates)
  show ?thesis
    unfolding Let_def pd total_generateStatistics using a b c d e f g h i by blast
qed

theorem C6_unparsed_dates_are_counted_witness:
  "visitsKeys (map fst) \<and> sorts (insertionSort :: (string \<Rightarrow> string \<Rightarrow> bool) \<Rightarrow> _) \<and>
   sorts (insertionSort :: (StudyRecord \<Rightarrow> StudyRecord \<Rightarrow> bool) \<Rightarrow> _) \<and>
   map (\<lambda>q. parseDate (Date q)) undatedQuestions = [None, None, None] \<and>
   TotalQuestionsCracked (generateStatistics (map fst) insertionSort undatedQuestions) = 3 \<and>
   elems (QuestionsCrackedPerDay (generateStatistics (map fst) insertionSort undatedQuestions)) =
     [\<lparr>Date_Day = ''2024-01-15'', Count = 1\<rparr>, \<lparr>Date_Day = ''not-a-date'', Count = 2\<rparr>] \<and>
   sorted_wrt (<) (map Date_Day
     (elems (QuestionsCrackedPerDay (generateStatistics (map fst) insertionSort undatedQuestions)))) \<and>
   datesLess ''2024-01-15'' ''not-a-date'' \<and>
   TotalMinutesStudied (generateStatistics_Study insertionSort undatedStudies) = 50"
proof -
  note t = C6_unparsed_dates_are_counted[OF visitsKeys_map_fst sorts_insertionSort
      sorts_insertionSort, of undatedQuestions undatedStudies, unfolded Let_def]
  have p: "map (\<lambda>q. parseDate (Date q)) undatedQuestions = [None, None, None]"
    by (simp add: undatedQuestions_def parseDate_def isDigit_def digit_def)
  then have p': "\<forall>q\<in>set undatedQuestions. parseDate (Date q) = None"
    by (simp add: undatedQuestions_def)
  have 1: "TotalQuestionsCracked (generateStatistics (map fst) insertionSort undatedQuestions) = 3"
    using t by (simp add: undatedQuestions_def)
  have 2: "elems (QuestionsCrackedPerDay
      (generateStatistics (map fst) insertionSort undatedQuestions)) =
     [\<lparr>Date_Day = ''2024-01-15'', Count = 1\<rparr>, \<lparr>Date_Day = ''not-a-date'', Count = 2\<rparr>]"
    by (simp add: undatedQuestions_def evalQuestions)
  have 3: "sorted_wrt (<) (map Date_Day (elems (QuestionsCrackedPerDay
      (generateStatistics (map fst) insertionSort undatedQuestions))))"
    using t p' by blast
  have "parseDate ''not-a-date'' = None" by (simp add: parseDate_def isDigit_def digit_def)
  then have 4: "datesLess ''2024-01-15'' ''not-a-date''" using t by simp
  have 5: "TotalMinutesStudied (generateStatistics_Study insertionSort undatedStudies) = 50"
    using t by (simp add: undatedStudies_def)
  show ?thesis using visitsKeys_map_fst sorts_insertionSort sorts_insertionSort p 1 2 3 4 5 by simp
qed

text \<open>
  The claim as worded fails on the positions.  With dates that parse among those that do
  not, the comparator is not transitive: visited in the order \<^verbatim>\<open>11\<close>, \<^verbatim>\<open>15/01/2024\<close>,
  \<^verbatim>\<open>01/02/2024\<close>, \<^verbatim>\<open>10\<close>, no neighbours are out of order for the comparator, so \<^verbatim>\<open>11\<close> stays
  before \<^verbatim>\<open>10\<close>.  And the study report never compares strings: \<^verbatim>\<open>b\<close> and \<^verbatim>\<open>a\<close> both count as
  the zero time and stay in the order of the input.
\<close>

theorem C6_string_order_counterexample:
  "map Date_Day (elems (QuestionsCrackedPerDay
       (generateStatistics (map fst) insertionSort fourQuestions))) =
     [''11'', ''15/01/2024'', ''01/02/2024'', ''10''] \<and>
   parseDate ''11'' = None \<and> parseDate ''10'' = None \<and> ''10'' < ''11'' \<and>
   map Date_StudyDay (elems (TotalMinutesPerDay
       (generateStatistics_Study insertionSort undatedStudies))) = [''b'', ''a''] \<and>
   parseDate ''b'' = None \<and> parseDate ''a'' = None \<and> ''a'' < ''b''"
  by (simp add: fourQuestions_def undatedStudies_def evalQuestions evalStudy)

section \<open>C7: tags and the total\<close>

text \<open>
  C7.  One pass of the counting loop over a question adds to \<^verbatim>\<open>perTag[t]\<close> the number of times
  \<open>t\<close> stands in the question's tag list (1 for each tag it carries, nothing for any other
  tag) and adds 1 to the total, in both question reports; so in the report \<^verbatim>\<open>perTag[t]\<close> is
  the number of tag entries \<open>t\<close> over all questions while the total is the number of
  questions.  A question tagged \<^verbatim>\<open>["array","dp"]\<close> raises \<^verbatim>\<open>perTag["array"]\<close> and
  \<^verbatim>\<open>perTag["dp"]\<close> by 1 each, leaves \<^verbatim>\<open>perTag["graph"]\<close> alone and raises the total by 1.
\<close>

theorem C7_perTag_once_per_tag_total_once:
  "(\<forall>t. index (QuestionsCrackedPerTag (snd (countQuestion (dailyStats, stats) q))) t =
          index (QuestionsCrackedPerTag stats) t + of_nat (count_list (Tags q) t)) \<and>
   TotalQuestionsCracked (snd (countQuestion (dailyStats, stats) q)) =
     TotalQuestionsCracked stats + 1 \<and>
   (\<forall>t. index (QuestionsCrackedPerTag_Map (countQuestion_Map mstats q)) t =
          index (QuestionsCrackedPerTag_Map mstats) t + of_nat (count_list (Tags q) t)) \<and>
   TotalQuestionsCracked_Map (countQuestion_Map mstats q) = TotalQuestionsCracked_Map mstats + 1 \<and>
   (\<forall>t. index (QuestionsCrackedPerTag (generateStatistics rangeKeys sortSliceStable questions)) t =
          of_nat (\<Sum>q\<leftarrow>questions. count_list (Tags q) t)) \<and>
   TotalQuestionsCracked (generateStatistics rangeKeys sortSliceStable questions) =
     of_nat (length questions) \<and>
   (\<forall>t. index (QuestionsCrackedPerTag_Map (generateStatistics_Map questions)) t =
          of_nat (\<Sum>q\<leftarrow>questions. count_list (Tags q) t)) \<and>
   TotalQuestionsCracked_Map (generateStatistics_Map questions) = of_nat (length questions) \<and>
   (let q2 = \<lparr>Name = n, Date = d, Difficulty = l, Tags = [''array'', ''dp'']\<rparr>;
        stats' = snd (countQuestion (dailyStats, stats) q2)
    in index (QuestionsCrackedPerTag stats') ''array'' =
         index (QuestionsCrackedPerTag stats) ''array'' + 1 \<and>
       index (QuestionsCrackedPerTag stats') ''dp'' = index (QuestionsCrackedPerTag stats) ''dp'' + 1 \<and>
       index (QuestionsCrackedPerTag stats') ''graph'' =
         index (QuestionsCrackedPerTag stats) ''graph'' \<and>
       TotalQuestionsCracked stats' = TotalQuestionsCracked stats + 1)"
proof -
  have a: "\<And>q t. index (QuestionsCrackedPerTag (snd (countQuestion (dailyStats, stats) q))) t =
          index (QuestionsCrackedPerTag stats) t + of_nat (count_list (Tags q) t)"
    by (simp add: countQuestion_def index_foldl_addTo)
  have b: "\<And>q. TotalQuestionsCracked (snd (countQuestion (dailyStats, stats) q)) =
     TotalQuestionsCracked stats + 1"
    by (simp add: countQuestion_def)
  have c: "\<And>t. index (QuestionsCrackedPerTag_Map (countQuestion_Map mstats q)) t =
          index (QuestionsCrackedPerTag_Map mstats) t + of_nat (count_list (Tags q) t)"
    by (simp add: countQuestion_Map_def index_foldl_addTo)
  have d: "TotalQuestionsCracked_Map (countQuestion_Map mstats q) = TotalQuestionsCracked_Map mstats + 1"
    by (simp add: countQuestion_Map_def)
  have e: "\<And>t. index (QuestionsCrackedPerTag_Map (generateStatistics_Map questions)) t =
          of_nat (\<Sum>q\<leftarrow>questions. count_list (Tags q) t)"
    by (simp add: generateStatistics_Map_def perTag_generateStatistics_Map) (simp add: index_def)
  have f: "TotalQuestionsCracked_Map (generateStatistics_Map questions) = of_nat (length questions)"
    by (simp add: generateStatistics_Map_def total_generateStatistics_Map)
  show ?thesis
    unfolding Let_def a b c d e f perTag_generateStatistics total_generateStatistics
    by simp
qed

section \<open>C8: a bad minutes field aborts the ingestion before any write\<close>

text \<open>
  C8, as the code has it.  A minutes field is bad when \<^verbatim>\<open>strconv.Atoi\<close> rejects it, which
  it does exactly when the field is not an optionally signed decimal integer of Go's \<^verbatim>\<open>int\<close>
  range; a field it accepts is read as the integer it denotes.  A bad field makes
  \<open>putItemToDynamoDB\<close> fail with the invalid-minutes error and leave the table as it was,
  and a field that is not bad makes it hand to the storage the item with the theme, the date
  and exactly the parsed minutes, and fail only if the storage does.  One bad study anywhere
  in the batch makes \<open>putMultipleItemsToDynamoDB\<close> fail with the invalid-minutes error and
  leave the table as it was, whatever the storage calls would do; and when no study is bad,
  the items it hands to the storage, in batches, are the studies in their order, each with
  its theme, its date and exactly its parsed minutes, never a zero in place of a bad value.
  A negative number is not bad: \<^verbatim>\<open>"-5"\<close> parses to \<open>-5\<close>.
\<close>

theorem C8_bad_minutes_abort_before_any_write:
  "(Atoi (StudyMinutes request) = Inl err \<longrightarrow>
      putItemToDynamoDB PutItem request db = (Some (InvalidMinutes err), db)) \<and>
   (Atoi (StudyMinutes request) = Inr minutes \<longrightarrow>
      putItemToDynamoDB PutItem request db =
        (if fst (PutItem \<lparr>study_theme = StudyTheme request, study_date = StudyDate request,
                           minutes_of_study = minutes\<rparr> db)
         then None else Some PutItemFailed,
         snd (PutItem \<lparr>study_theme = StudyTheme request, study_date = StudyDate request,
                        minutes_of_study = minutes\<rparr> db))) \<and>
   ((\<exists>study\<in>set studies. \<exists>e. Atoi (StudyMinutes study) = Inl e) \<longrightarrow>
      (\<exists>e. putMultipleItemsToDynamoDB BatchWriteItem studies db = (Some (InvalidMinutes e), db))) \<and>
   ((\<forall>study\<in>set studies. \<exists>minutes. Atoi (StudyMinutes study) = Inr minutes) \<longrightarrow>
      (\<exists>items. putMultipleItemsToDynamoDB BatchWriteItem studies db =
                  batchWrite BatchWriteItem items db \<and>
               length items = length studies \<and>
               (\<forall>i<length studies.
                  study_theme (items ! i) = StudyTheme (studies ! i) \<and>
                  study_date (items ! i) = StudyDate (studies ! i) \<and>
                  Atoi (StudyMinutes (studies ! i)) = Inr (minutes_of_study (items ! i))))) \<and>
   ((\<exists>e. Atoi field = Inl e) =
      (\<not> (isNumber field \<and> - (2 ^ 63) \<le> numberOf field \<and> numberOf field < 2 ^ 63))) \<and>
   (Atoi field = Inr number \<longrightarrow> sint number = numberOf field) \<and>
   Atoi ''thirty'' = Inl ErrSyntax \<and> Atoi ''1.5'' = Inl ErrSyntax \<and> Atoi [] = Inl ErrSyntax \<and>
   Atoi ''+'' = Inl ErrSyntax \<and> Atoi ''9223372036854775808'' = Inl ErrRange \<and>
   Atoi ''99999999999999999999x'' = Inl ErrRange \<and>
   Atoi ''9223372036854775807'' = Inr 9223372036854775807 \<and>
   Atoi ''-9223372036854775808'' = Inr (- 9223372036854775808) \<and>
   Atoi ''0'' = Inr 0 \<and> Atoi ''30'' = Inr 30 \<and> Atoi ''-5'' = Inr (- 5)"
proof -
  have num: "((\<exists>e. Atoi field = Inl e) =
      (\<not> (isNumber field \<and> - (2 ^ 63) \<le> numberOf field \<and> numberOf field < 2 ^ 63))) \<and>
      (Atoi field = Inr number \<longrightarrow> sint number = numberOf field)"
    using Atoi_rejects[of field] Atoi_sint[of field number] by blast
  have one: "Atoi (StudyMinutes request) = Inl err \<longrightarrow>
      putItemToDynamoDB PutItem request db = (Some (InvalidMinutes err), db)"
    by (simp add: putItemToDynamoDB_def)
  have two: "Atoi (StudyMinutes request) = Inr minutes \<longrightarrow>
      putItemToDynamoDB PutItem request db =
        (if fst (PutItem \<lparr>study_theme = StudyTheme request, study_date = StudyDate request,
                           minutes_of_study = minutes\<rparr> db)
         then None else Some PutItemFailed,
         snd (PutItem \<lparr>study_theme = StudyTheme request, study_date = StudyDate request,
                        minutes_of_study = minutes\<rparr> db))"
    by (simp add: putItemToDynamoDB_def split: prod.splits)
  have bad: "(\<exists>study\<in>set studies. \<exists>e. Atoi (StudyMinutes study) = Inl e) \<longrightarrow>
      (\<exists>e. putMultipleItemsToDynamoDB BatchWriteItem studies db = (Some (InvalidMinutes e), db))"
  proof
    assume "\<exists>study\<in>set studies. \<exists>e. Atoi (StudyMinutes study) = Inl e"
    then obtain e where "writeRequests studies = Inl e" using writeRequests_bad by blast
    then show "\<exists>e. putMultipleItemsToDynamoDB BatchWriteItem studies db =
        (Some (InvalidMinutes e), db)"
      by (simp add: putMultipleItemsToDynamoDB_def)
  qed
  have good: "(\<forall>study\<in>set studies. \<exists>minutes. Atoi (StudyMinutes study) = Inr minutes) \<longrightarrow>
      (\<exists>items. putMultipleItemsToDynamoDB BatchWriteItem studies db =
                  batchWrite BatchWriteItem items db \<and>
               length items = length studies \<and>
               (\<forall>i<length studies.
                  study_theme (items ! i) = StudyTheme (studies ! i) \<and>
                  study_date (items ! i) = StudyDate (studies ! i) \<and>
                  Atoi (StudyMinutes (studies ! i)) = Inr (minutes_of_study (items ! i))))"
  proof
    assume ok: "\<forall>study\<in>set studies. \<exists>minutes. Atoi (StudyMinutes study) = Inr minutes"
    have "\<exists>items. writeRequests studies = Inr items"
      using ok by (induction studies) (auto split: sum.splits)
    then obtain items where w: "writeRequests studies = Inr items" by blast
    have "putMultipleItemsToDynamoDB BatchWriteItem studies db = batchWrite BatchWriteItem items db"
      using w by (simp add: putMultipleItemsToDynamoDB_def)
    then show "\<exists>items. putMultipleItemsToDynamoDB BatchWriteItem studies db =
                  batchWrite BatchWriteItem items db \<and>
               length items = length studies \<and>
               (\<forall>i<length studies.
                  study_theme (items ! i) = StudyTheme (studies ! i) \<and>
                  study_date (items ! i) = StudyDate (studies ! i) \<and>
                  Atoi (StudyMinutes (studies ! i)) = Inr (minutes_of_study (items ! i)))"
      using writeRequests_good[OF w] by blast
  qed
  have ex1: "Atoi ''thirty'' = Inl ErrSyntax \<and> Atoi ''1.5'' = Inl ErrSyntax \<and>
      Atoi [] = Inl ErrSyntax \<and> Atoi ''+'' = Inl ErrSyntax"
    by (simp add: evalAtoi)
  have ex2: "Atoi ''9223372036854775808'' = Inl ErrRange"
    by (simp add: evalAtoi)
  have ex3: "Atoi ''99999999999999999999x'' = Inl ErrRange"
    by (simp add: evalAtoi)
  have ex4: "Atoi ''9223372036854775807'' = Inr 9223372036854775807"
    by (simp add: evalAtoi)
  have ex5: "Atoi ''-9223372036854775808'' = Inr (- 9223372036854775808)"
    by (simp add: evalAtoi)
  have ex6: "Atoi ''0'' = Inr 0 \<and> Atoi ''30'' = Inr 30 \<and> Atoi ''-5'' = Inr (- 5)"
    by (simp add: evalAtoi)
  show ?thesis using one two bad good num ex1 ex2 ex3 ex4 ex5 ex6 by blast
qed

theorem C8_bad_minutes_abort_before_any_write_witness:
  "Atoi (StudyMinutes (twoStudies ! 1)) = Inl ErrSyntax \<and>
   putItemToDynamoDB appendItem (twoStudies ! 1) [] = (Some (InvalidMinutes ErrSyntax), []) \<and>
   putMultipleItemsToDynamoDB appendItems twoStudies [] = (Some (InvalidMinutes ErrSyntax), []) \<and>
   Atoi (StudyMinutes (twoStudies ! 0)) = Inr 30 \<and>
   numberOf (StudyMinutes (twoStudies ! 0)) = 30 \<and>
   putItemToDynamoDB appendItem (twoStudies ! 0) [] =
     (None, [\<lparr>study_theme = ''math'', study_date = ''02/01/2024'', minutes_of_study = 30\<rparr>]) \<and>
   putMultipleItemsToDynamoDB appendItems [twoStudies ! 0] [] =
     (None, [\<lparr>study_theme = ''math'', study_date = ''02/01/2024'', minutes_of_study = 30\<rparr>])"
proof -
  have b: "Atoi (StudyMinutes (twoStudies ! 1)) = Inl ErrSyntax"
    and g: "Atoi (StudyMinutes (twoStudies ! 0)) = Inr 30"
    by (simp_all add: twoStudies_def evalAtoi)
  note t = C8_bad_minutes_abort_before_any_write[where request = "twoStudies ! 1"
      and err = ErrSyntax and PutItem = appendItem and db = "[]" and studies = twoStudies
      and BatchWriteItem = appendItems]
  note u = C8_bad_minutes_abort_before_any_write[where request = "twoStudies ! 0"
      and minutes = 30 and PutItem = appendItem and db = "[]"
      and studies = "[twoStudies ! 0]" and BatchWriteItem = appendItems
      and field = "StudyMinutes (twoStudies ! 0)" and number = 30]
  have "sint (30 :: go_int) = numberOf (StudyMinutes (twoStudies ! 0))"
    using u g by blast
  then have n: "numberOf (StudyMinutes (twoStudies ! 0)) = 30" by simp
  have 1: "putItemToDynamoDB appendItem (twoStudies ! 1) [] = (Some (InvalidMinutes ErrSyntax), [])"
    using t b by blast
  have "\<exists>study\<in>set twoStudies. \<exists>e. Atoi (StudyMinutes study) = Inl e"
    using b by (simp add: twoStudies_def)
  then obtain e where
    2: "putMultipleItemsToDynamoDB appendItems twoStudies [] = (Some (InvalidMinutes e), [])"
    using t by blast
  have "e = ErrSyntax"
    using 2 b g by (simp add: putMultipleItemsToDynamoDB_def twoStudies_def split: sum.splits)
  then have 3: "putMultipleItemsToDynamoDB appendItems twoStudies [] =
      (Some (InvalidMinutes ErrSyntax), [])"
    using 2 by simp
  have "putItemToDynamoDB appendItem (twoStudies ! 0) [] =
      (if fst (appendItem \<lparr>study_theme = StudyTheme (twoStudies ! 0),
                            study_date = StudyDate (twoStudies ! 0), minutes_of_study = 30\<rparr> [])
       then None else Some PutItemFailed,
       snd (appendItem \<lparr>study_theme = StudyTheme (twoStudies ! 0),
                         study_date = StudyDate (twoStudies ! 0), minutes_of_study = 30\<rparr> []))"
    using u g by blast
  then have 4: "putItemToDynamoDB appendItem (twoStudies ! 0) [] =
     (None, [\<lparr>study_theme = ''math'', study_date = ''02/01/2024'', minutes_of_study = 30\<rparr>])"
    by (simp add: appendItem_def twoStudies_def)
  have "\<forall>study\<in>set [twoStudies ! 0]. \<exists>minutes. Atoi (StudyMinutes study) = Inr minutes"
    using g by simp
  then obtain items where
    w: "putMultipleItemsToDynamoDB appendItems [twoStudies ! 0] [] = batchWrite appendItems items []"
    and l: "length items = length [twoStudies ! 0]"
    and v: "\<forall>i<length [twoStudies ! 0].
        study_theme (items ! i) = StudyTheme ([twoStudies ! 0] ! i) \<and>
        study_date (items ! i) = StudyDate ([twoStudies ! 0] ! i) \<and>
        Atoi (StudyMinutes ([twoStudies ! 0] ! i)) = Inr (minutes_of_study (items ! i))"
    using u by blast
  from l obtain item where items: "items = [item]"
    by (cases items) simp_all
  have "study_theme item = ''math'' \<and> study_date item = ''02/01/2024'' \<and> minutes_of_study item = 30"
    using v g unfolding items by (simp add: twoStudies_def)
  then have item: "item = \<lparr>study_theme = ''math'', study_date = ''02/01/2024'',
      minutes_of_study = 30\<rparr>"
    by (cases item) simp
  have 5: "putMultipleItemsToDynamoDB appendItems [twoStudies ! 0] [] =
     (None, [\<lparr>study_theme = ''math'', study_date = ''02/01/2024'', minutes_of_study = 30\<rparr>])"
    unfolding w items item by (simp add: appendItems_def)
  show ?thesis using b g n 1 3 4 5 by simp
qed

text \<open>
  The claim as the specification words it fails: \<^verbatim>\<open>"-5"\<close> cannot be read as a non-negative
  integer, yet both ingestion functions succeed and store \<open>-5\<close>.
\<close>

theorem C8_negative_minutes_counterexample:
  "putItemToDynamoDB appendItem negativeStudy [] =
     (None, [\<lparr>study_theme = ''math'', study_date = ''02/01/2024'', minutes_of_study = - 5\<rparr>]) \<and>
   putMultipleItemsToDynamoDB appendItems [negativeStudy] [] =
     (None, [\<lparr>study_theme = ''math'', study_date = ''02/01/2024'', minutes_of_study = - 5\<rparr>]) \<and>
   sint (- 5 :: go_int) < 0"
  by (simp add: putItemToDynamoDB_def putMultipleItemsToDynamoDB_def negativeStudy_def
      appendItem_def appendItems_def evalAtoi)

section \<open>C9: the empty input\<close>

text \<open>
  C9.  On the empty input every total is 0 and every map is empty.  The study report's
  \<^verbatim>\<open>TotalMinutesPerDay\<close> is the empty non-nil slice, but the question report's
  \<^verbatim>\<open>QuestionsCrackedPerDay\<close> and \<^verbatim>\<open>IncrementalQuestionsCrackedPerDay\<close> are nil slices, which
  the handler's \<^verbatim>\<open>json.Marshal\<close> writes as \<^verbatim>\<open>null\<close>.
\<close>

theorem C9_empty_input:
  assumes "visitsKeys rangeKeys" and "sorts sortSliceStable" and "sorts sortSlice"
  shows "generateStatistics rangeKeys sortSliceStable [] =
           \<lparr>QuestionsCrackedPerDay = None,
            QuestionsCrackedPerDifficulty = Map.empty,
            QuestionsCrackedPerTag = Map.empty,
            TotalQuestionsCracked = 0,
            IncrementalQuestionsCrackedPerDay = None\<rparr> \<and>
         generateStatistics_Map [] =
           \<lparr>QuestionsCrackedPerDay_Map = Map.empty,
            QuestionsCrackedPerDifficulty_Map = Map.empty,
            QuestionsCrackedPerTag_Map = Map.empty,
            TotalQuestionsCracked_Map = 0\<rparr> \<and>
         generateStatistics_Study sortSlice [] =
           \<lparr>TotalMinutesStudied = 0,
            TotalMinutesPerDay = Some [],
            MinutesPerThemePerDay = Map.empty\<rparr>"
proof -
  have "mset (rangeKeys []) = {#}" using assms(1) by (simp add: visitsKeys_def)
  then have k: "rangeKeys [] = []" by simp
  have "mset (sortSliceStable datesLess []) = {#}" using assms(2) by (simp add: sorts_def)
  then have s: "sortSliceStable datesLess [] = []" by simp
  have "mset (sortSlice byDate []) = {#}" using assms(3) by (simp add: sorts_def)
  then have t: "sortSlice byDate [] = []" by simp
  show ?thesis
    by (simp add: generateStatistics_def getSortedDates_def generateStatistics_Map_def
        generateStatistics_Study_def k s t)
qed

theorem C9_empty_input_witness:
  "visitsKeys (map fst) \<and> sorts (insertionSort :: (string \<Rightarrow> string \<Rightarrow> bool) \<Rightarrow> _) \<and>
   sorts (insertionSort :: (StudyRecord \<Rightarrow> StudyRecord \<Rightarrow> bool) \<Rightarrow> _) \<and>
   QuestionsCrackedPerDay (generateStatistics (map fst) insertionSort []) = None \<and>
   IncrementalQuestionsCrackedPerDay (generateStatistics (map fst) insertionSort []) = None \<and>
   TotalMinutesPerDay (generateStatistics_Study insertionSort []) = Some []"
  using C9_empty_input[OF visitsKeys_map_fst sorts_insertionSort sorts_insertionSort]
  by (simp add: visitsKeys_map_fst sorts_insertionSort)

section \<open>C10: the running grand total of the study report\<close>

text \<open>
  C10, as the code has it.  When every date parses, the series \<^verbatim>\<open>TotalMinutesPerDay\<close> of a
  non-empty input is non-empty and the minutes of its last entry are
  \<^verbatim>\<open>TotalMinutesStudied\<close> (for the empty input the series is empty and the total 0).  When
  moreover no minutes are negative and the sum of all minutes fits Go's \<^verbatim>\<open>int\<close> (it is
  below \<open>2^63\<close>), the minutes of the series, read as signed integers, never decrease.
\<close>

theorem C10_study_series_running_total:
  assumes "sorts sortSlice" and "\<forall>r\<in>set records. parseDate (Date_Record r) \<noteq> None"
  shows "let stats = generateStatistics_Study sortSlice records;
             days = elems (TotalMinutesPerDay stats)
         in (if records = [] then days = [] \<and> TotalMinutesStudied stats = 0
             else days \<noteq> [] \<and> Minutes_StudyDay (last days) = TotalMinutesStudied stats) \<and>
            ((\<forall>r\<in>set records. 0 \<le> sint (Minutes r)) \<and> (\<Sum>r\<leftarrow>records. sint (Minutes r)) < 2 ^ 63 \<longrightarrow>
               sorted (map (\<lambda>e. sint (Minutes_StudyDay e)) days))"
proof -
  let ?p = "sortSlice byDate records"
  let ?D = "elems (TotalMinutesPerDay (generateStatistics_Study sortSlice records))"
  let ?k = "\<lambda>a. timeOf (Date_Record a)"
  have m: "mset ?p = mset records" by (rule sorts_byDate(1)[OF assms(1)])
  then have sp: "set ?p = set records" by (rule mset_eq_setD)
  have tot: "TotalMinutesStudied (generateStatistics_Study sortSlice records) =
      sum_list (map Minutes ?p)"
    by (rule generateStatistics_Study_total)
  have inv: "daysInv ?p ?D" by (rule generateStatistics_Study_daysInv[OF assms])
  then have I1: "Date_StudyDay ` set ?D = Date_Record ` set ?p"
    and I2: "sorted_wrt (\<lambda>a b. timeOf a < timeOf b) (map Date_StudyDay ?D)"
    and I3: "?p = [] \<or> (?D \<noteq> [] \<and> (\<forall>a\<in>set ?p. ?k a \<le> timeOf (Date_StudyDay (last ?D))))"
    and I4: "\<forall>e\<in>set ?D. Minutes_StudyDay e = sum_list (map Minutes (upTo ?p (Date_StudyDay e)))"
    unfolding daysInv_def by blast+
  have ends: "if records = [] then ?D = [] \<and> sum_list (map Minutes ?p) = 0
      else ?D \<noteq> [] \<and> Minutes_StudyDay (last ?D) = sum_list (map Minutes ?p)"
  proof (cases "records = []")
    case True
    then have "?p = []" using m by simp
    moreover from this have "?D = []" using I1 by simp
    ultimately show ?thesis using True by simp
  next
    case False
    then have "?p \<noteq> []" using sp by auto
    with I3 have Dne: "?D \<noteq> []" and mx: "\<forall>a\<in>set ?p. ?k a \<le> timeOf (Date_StudyDay (last ?D))"
      by auto
    have "Minutes_StudyDay (last ?D) = sum_list (map Minutes (upTo ?p (Date_StudyDay (last ?D))))"
      using I4 Dne by simp
    then show ?thesis using False Dne upTo_all[OF mx] by simp
  qed
  have mono: "(\<forall>r\<in>set records. 0 \<le> sint (Minutes r)) \<and> (\<Sum>r\<leftarrow>records. sint (Minutes r)) < 2 ^ 63 \<longrightarrow>
      sorted (map (\<lambda>e. sint (Minutes_StudyDay e)) ?D)"
  proof
    assume h: "(\<forall>r\<in>set records. 0 \<le> sint (Minutes r)) \<and> (\<Sum>r\<leftarrow>records. sint (Minutes r)) < 2 ^ 63"
    then have nonneg: "\<forall>r\<in>set ?p. 0 \<le> sint (Minutes r)" using sp by simp
    have bound: "(\<Sum>r\<leftarrow>?p. sint (Minutes r)) < 2 ^ 63" using h sum_sint_mset[OF m] by simp
    have val: "\<And>e. e \<in> set ?D \<Longrightarrow>
        sint (Minutes_StudyDay e) = (\<Sum>r\<leftarrow>upTo ?p (Date_StudyDay e). sint (Minutes r))"
      using I4 sint_upTo[OF nonneg bound] by simp
    have "sorted_wrt (\<lambda>a b. timeOf (Date_StudyDay a) < timeOf (Date_StudyDay b)) ?D"
      using I2 by (simp add: sorted_wrt_map)
    then have "sorted_wrt (\<lambda>a b. sint (Minutes_StudyDay a) \<le> sint (Minutes_StudyDay b)) ?D"
    proof (rule sorted_wrt_mono_rel[rotated])
      fix a b assume a: "a \<in> set ?D" and b: "b \<in> set ?D"
        and lt: "timeOf (Date_StudyDay a) < timeOf (Date_StudyDay b)"
      have "(\<Sum>r\<leftarrow>upTo ?p (Date_StudyDay a). sint (Minutes r)) \<le>
            (\<Sum>r\<leftarrow>upTo ?p (Date_StudyDay b). sint (Minutes r))"
        unfolding upTo_def using nonneg lt
        by (intro sum_list_filter_mono[THEN conjunct2]) auto
      then show "sint (Minutes_StudyDay a) \<le> sint (Minutes_StudyDay b)"
        using val[OF a] val[OF b] by simp
    qed
    then show "sorted (map (\<lambda>e. sint (Minutes_StudyDay e)) ?D)"
      by (simp add: sorted_wrt_map)
  qed
  show ?thesis unfolding Let_def tot using ends mono by blast
qed

theorem C10_study_series_running_total_witness:
  "sorts (insertionSort :: (StudyRecord \<Rightarrow> StudyRecord \<Rightarrow> bool) \<Rightarrow> _) \<and>
   map (\<lambda>r. parseDate (Date_Record r)) scenario =
     [Some (2024, 1, 2), Some (2024, 1, 2), Some (2024, 1, 3)] \<and>
   map (\<lambda>r. sint (Minutes r)) scenario = [30, 20, 10] \<and>
   (let stats = generateStatistics_Study insertionSort scenario;
        days = elems (TotalMinutesPerDay stats)
    in Minutes_StudyDay (last days) = TotalMinutesStudied stats \<and>
       sorted (map (\<lambda>e. sint (Minutes_StudyDay e)) days))"
proof -
  have p: "map (\<lambda>r. parseDate (Date_Record r)) scenario =
     [Some (2024, 1, 2), Some (2024, 1, 2), Some (2024, 1, 3)]"
    by (simp add: scenario_def parseDate_def isDigit_def digit_def daysIn_def)
  have n: "map (\<lambda>r. sint (Minutes r)) scenario = [30, 20, 10]"
    by (simp add: scenario_def)
  have p': "\<forall>r\<in>set scenario. parseDate (Date_Record r) \<noteq> None"
    using p by (simp add: scenario_def)
  have n': "(\<forall>r\<in>set scenario. 0 \<le> sint (Minutes r)) \<and> (\<Sum>r\<leftarrow>scenario. sint (Minutes r)) < 2 ^ 63"
    by (simp add: scenario_def)
  have ne: "scenario \<noteq> []" by (simp add: scenario_def)
  show ?thesis
    using C10_study_series_running_total[OF sorts_insertionSort p'] p n n' ne sorts_insertionSort
    unfolding Let_def by simp
qed

text \<open>
  The claim as worded fails when the minutes overflow: both dates parse and no minutes are
  negative, yet the second entry wraps around to \<open>- 2^63\<close>, below the first.
\<close>

theorem C10_overflow_counterexample:
  "map (\<lambda>r. parseDate (Date_Record r)) twoLongDays = [Some (2024, 1, 1), Some (2024, 1, 2)] \<and>
   map (\<lambda>r. sint (Minutes r)) twoLongDays = [4611686018427387904, 4611686018427387904] \<and>
   map (\<lambda>e. sint (Minutes_StudyDay e))
     (elems (TotalMinutesPerDay (generateStatistics_Study insertionSort twoLongDays))) =
     [4611686018427387904, - 9223372036854775808]"
  by (simp add: twoLongDays_def evalStudy)

end
